theory Spec2Isabelle
  imports Main
begin

section \<open>Values of the request and of the generated query\<close>

text \<open>
  The builder and the validator work on untyped JavaScript values (\<open>any\<close>). A value is
  \<open>undefined\<close>, \<open>null\<close>, a boolean, a number, a string, an array or a plain object.
  An object is kept as the list of its own enumerable entries in the order
  \<open>Object.entries\<close> reports them, so a \<open>Record<string, any>\<close> of the request is the list
  its loop walks. A number among these values is only carried along, never computed
  with, and is kept as an integer.
\<close>

datatype jsval =
    JUndefined
  | JNull
  | JBool bool
  | JNum int
  | JStr string
  | JArr "jsval list"
  | JObj "(string \<times> jsval) list"

text \<open>\<open>value === null || value === undefined\<close>\<close>

fun isNullish :: "jsval \<Rightarrow> bool" where
  "isNullish JNull = True"
| "isNullish JUndefined = True"
| "isNullish _ = False"

text \<open>\<open>Array.isArray(value)\<close>\<close>

fun isArray :: "jsval \<Rightarrow> bool" where
  "isArray (JArr _) = True"
| "isArray _ = False"

text \<open>The elements of an array value; only called on arrays.\<close>

fun elements :: "jsval \<Rightarrow> jsval list" where
  "elements (JArr vs) = vs"
| "elements _ = []"

section \<open>Field paths\<close>

text \<open>
  \<open>s.split(sep)\<close> for a one-character separator: the pieces between the separators, the
  empty string giving one empty piece.
\<close>

fun js_split :: "string \<Rightarrow> char \<Rightarrow> string list" where
  "js_split [] sep = [[]]"
| "js_split (c # cs) sep =
     (if c = sep then [] # js_split cs sep
      else (case js_split cs sep of
              [] \<Rightarrow> [[c]]
            | p # ps \<Rightarrow> (c # p) # ps))"

text \<open>\<open>key.includes('.')\<close>\<close>

definition includesDot :: "string \<Rightarrow> bool" where
  "includesDot key = (CHR ''.'' \<in> set key)"

text \<open>
  The loop shared by the four nested builders,
  \<open>for (let i = parts.length - 1; i >= 0; i--) current = { [parts[i]]: current }\<close>.
  The counter \<open>n\<close> is \<open>i + 1\<close>, so the loop ends at \<open>n = 0\<close>.
\<close>

fun wrapLoop :: "string list \<Rightarrow> nat \<Rightarrow> jsval \<Rightarrow> jsval" where
  "wrapLoop parts 0 current = current"
| "wrapLoop parts (Suc i) current = wrapLoop parts i (JObj [(parts ! i, current)])"

text \<open>
  \<open>parts.pop()\<close> takes the last piece off: \<open>lastPart\<close> is \<open>last parts\<close> and the loop runs
  over \<open>butlast parts\<close>. \<open>js_split\<close> never returns the empty list.
\<close>

definition buildNestedWhere :: "string \<Rightarrow> jsval \<Rightarrow> jsval" where
  "buildNestedWhere key v =
     (if \<not> includesDot key then JObj [(key, v)]
      else (let parts = js_split key (CHR ''.'');
                lastPart = last parts;
                parts' = butlast parts
            in wrapLoop parts' (length parts') (JObj [(lastPart, v)])))"

datatype searchMode = Insensitive | Sensitive

fun modeString :: "searchMode \<Rightarrow> string" where
  "modeString Insensitive = ''insensitive''"
| "modeString Sensitive = ''sensitive''"

text \<open>The search leaf \<open>{ contains: value, mode: searchMode }\<close>.\<close>

definition searchLeaf :: "jsval \<Rightarrow> searchMode \<Rightarrow> jsval" where
  "searchLeaf v m = JObj [(''contains'', v), (''mode'', JStr (modeString m))]"

definition buildNestedSearch :: "string \<Rightarrow> jsval \<Rightarrow> searchMode \<Rightarrow> jsval" where
  "buildNestedSearch key v m =
     (if \<not> includesDot key then JObj [(key, searchLeaf v m)]
      else (let parts = js_split key (CHR ''.'');
                lastPart = last parts;
                parts' = butlast parts
            in wrapLoop parts' (length parts') (JObj [(lastPart, searchLeaf v m)])))"

record RangedFilter =
  key_r :: string
  start_r :: jsval
  end_r :: jsval

text \<open>The range leaf \<open>{ gte: range.start, lte: range.end }\<close>.\<close>

definition rangeLeaf :: "RangedFilter \<Rightarrow> jsval" where
  "rangeLeaf r = JObj [(''gte'', start_r r), (''lte'', end_r r)]"

definition buildNestedRange :: "RangedFilter \<Rightarrow> jsval" where
  "buildNestedRange r =
     (let parts = js_split (key_r r) (CHR ''.'');
          lastPart = last parts;
          parts' = butlast parts
      in wrapLoop parts' (length parts') (JObj [(lastPart, rangeLeaf r)]))"

datatype OrderDirection = Asc | Desc

fun directionValue :: "OrderDirection \<Rightarrow> jsval" where
  "directionValue Asc = JStr ''asc''"
| "directionValue Desc = JStr ''desc''"

definition buildNestedOrderBy :: "string \<Rightarrow> OrderDirection \<Rightarrow> jsval" where
  "buildNestedOrderBy orderKey orderRule =
     (if \<not> includesDot orderKey then JObj [(orderKey, directionValue orderRule)]
      else (let parts = js_split orderKey (CHR ''.'');
                lastPart = last parts;
                parts' = butlast parts
            in wrapLoop parts' (length parts') (JObj [(lastPart, directionValue orderRule)])))"

section \<open>Numbers\<close>

text \<open>
  The numbers the code computes with are \<open>page\<close>, \<open>rows\<close> and \<open>maxPageSize\<close>, integers
  by the data model, held as IEEE 754 doubles. A number is \<open>NaN\<close>, an infinity, or a
  double with an integer value, \<open>Fin n\<close>; \<open>Fin 0\<close> stands for both zeros, which \<open>===\<close>
  does not tell apart. Subtraction and multiplication give the exact result rounded to
  the nearest double, a tie going to the even significand, and an infinity past the
  largest double: \<open>roundToDouble\<close>. A double has a significand of 53 bits, so an integer
  below \<open>2 ^ 53\<close> in size is kept as it is, and a larger one is rounded to a multiple of
  \<open>2 ^ e\<close>, where \<open>e = ulpExponent\<close> of its size.
\<close>

datatype jsnum = NaN | PosInfinity | NegInfinity | Fin int

function ulpExponent :: "int \<Rightarrow> nat" where
  "ulpExponent a = (if a < 2 ^ 53 then 0 else Suc (ulpExponent (a div 2)))"
  by pat_completeness auto
termination
  by (relation "measure nat") auto

declare ulpExponent.simps [simp del]

definition overflowThreshold :: int where
  "overflowThreshold = 2 ^ 1024"

definition roundToDouble :: "int \<Rightarrow> jsnum" where
  "roundToDouble n =
     (let a = \<bar>n\<bar>;
          e = ulpExponent a;
          m = a div 2 ^ e;
          rest = a mod 2 ^ e;
          up = (2 ^ e < 2 * rest \<or> (2 * rest = 2 ^ e \<and> odd m));
          v = (if up then m + 1 else m) * 2 ^ e
      in if overflowThreshold \<le> v then (if n < 0 then NegInfinity else PosInfinity)
         else Fin (if n < 0 then - v else v))"

text \<open>\<open>x - 1\<close>\<close>

fun numMinusOne :: "jsnum \<Rightarrow> jsnum" where
  "numMinusOne (Fin n) = roundToDouble (n - 1)"
| "numMinusOne x = x"

fun numSign :: "jsnum \<Rightarrow> int" where
  "numSign NaN = 0"
| "numSign PosInfinity = 1"
| "numSign NegInfinity = - 1"
| "numSign (Fin n) = sgn n"

text \<open>\<open>x * y\<close>; an infinity times zero is \<open>NaN\<close>.\<close>

fun numTimes :: "jsnum \<Rightarrow> jsnum \<Rightarrow> jsnum" where
  "numTimes NaN y = NaN"
| "numTimes x NaN = NaN"
| "numTimes (Fin a) (Fin b) = roundToDouble (a * b)"
| "numTimes x y =
     (let s = numSign x * numSign y
      in if s = 0 then NaN else if 0 < s then PosInfinity else NegInfinity)"

text \<open>The truthiness of a number: all but zero and \<open>NaN\<close>.\<close>

fun numTruthy :: "jsnum \<Rightarrow> bool" where
  "numTruthy NaN = False"
| "numTruthy (Fin n) = (n \<noteq> 0)"
| "numTruthy x = True"

text \<open>\<open>x < y\<close>, false when either is \<open>NaN\<close>; \<open>x > y\<close> is \<open>numLess y x\<close>.\<close>

fun numLess :: "jsnum \<Rightarrow> jsnum \<Rightarrow> bool" where
  "numLess NaN y = False"
| "numLess x NaN = False"
| "numLess (Fin a) (Fin b) = (a < b)"
| "numLess x NegInfinity = False"
| "numLess NegInfinity y = True"
| "numLess PosInfinity y = False"
| "numLess x PosInfinity = True"

section \<open>The query specification and the request\<close>

text \<open>
  The fields of \<open>QuerySpecification\<close> and \<open>FilteringQuery\<close> that the builder and the
  validator read. An optional field is an \<open>option\<close>; \<open>None\<close> is \<open>undefined\<close>.
\<close>

record QuerySpecification =
  allowedFields :: "string list option"
  forbiddenFields :: "string list option"
  allowedRelations :: "string list option"
  maxPageSize :: "jsnum option"
  defaultSearchMode :: "searchMode option"

record FilteringQuery =
  filters :: "(string \<times> jsval) list option"
  searchFilters :: "(string \<times> jsval) list option"
  rangedFilters :: "RangedFilter list option"
  orderKey :: "string option"
  orderRule :: "OrderDirection option"
  page :: "jsnum option"
  rows :: "jsnum option"

record PrismaQueryOptions =
  where_q :: jsval
  orderBy_q :: jsval
  take_q :: jsnum
  skip_q :: jsnum

text \<open>
  A test such as \<open>if (filter.page)\<close> is on truthiness: an optional number passes when it
  is there and neither \<open>0\<close> nor \<open>NaN\<close>, an optional string when it is there and not empty, an optional
  object or array whenever it is there.
\<close>

section \<open>The query builder\<close>

text \<open>The body of the loop of \<open>buildWhereQuery\<close> over \<open>Object.entries(filters)\<close>.\<close>

fun whereEntry :: "string \<times> jsval \<Rightarrow> jsval list \<Rightarrow> jsval list" where
  "whereEntry (key, v) whereConditions =
     (if isNullish v then whereConditions
      else if includesDot key then
        (if isArray v then
           whereConditions @ [JObj [(''OR'', JArr (map (\<lambda>val. buildNestedWhere key val) (elements v)))]]
         else whereConditions @ [buildNestedWhere key v])
      else if isArray v then
        whereConditions @ [JObj [(''OR'', JArr (map (\<lambda>val. JObj [(key, val)]) (elements v)))]]
      else whereConditions @ [JObj [(key, v)]])"

definition buildWhereQuery :: "(string \<times> jsval) list \<Rightarrow> jsval list" where
  "buildWhereQuery fs = fold whereEntry fs []"

text \<open>\<open>specification?.defaultSearchMode || 'insensitive'\<close>\<close>

fun resolveSearchMode :: "QuerySpecification option \<Rightarrow> searchMode" where
  "resolveSearchMode None = Insensitive"
| "resolveSearchMode (Some spec) =
     (case defaultSearchMode spec of None \<Rightarrow> Insensitive | Some m \<Rightarrow> m)"

text \<open>
  The body of the loop of \<open>buildSearchQuery\<close>; the state is the pair of
  \<open>whereConditions\<close> and \<open>orQuerySearchArray\<close>.
\<close>

fun searchEntry ::
  "bool \<Rightarrow> QuerySpecification option \<Rightarrow> string \<times> jsval \<Rightarrow> jsval list \<times> jsval list
     \<Rightarrow> jsval list \<times> jsval list" where
  "searchEntry isMultiKey specification (key, v) (whereConditions, orQuerySearchArray) =
     (if isNullish v then (whereConditions, orQuerySearchArray)
      else
        (let searchMode = resolveSearchMode specification;
             searchQuery =
               (if includesDot key then buildNestedSearch key v searchMode
                else JObj [(key, searchLeaf v searchMode)])
         in if isMultiKey then (whereConditions, orQuerySearchArray @ [searchQuery])
            else (whereConditions @ [searchQuery], orQuerySearchArray)))"

definition buildSearchQuery ::
  "(string \<times> jsval) list \<Rightarrow> QuerySpecification option \<Rightarrow> jsval list" where
  "buildSearchQuery sfs specification =
     (let isMultiKey = (length sfs > 1);
          (whereConditions, orQuerySearchArray) =
            fold (searchEntry isMultiKey specification) sfs ([], [])
      in if isMultiKey \<and> length orQuerySearchArray > 0
         then whereConditions @ [JObj [(''OR'', JArr orQuerySearchArray)]]
         else whereConditions)"

fun rangeEntry :: "RangedFilter \<Rightarrow> jsval list \<Rightarrow> jsval list" where
  "rangeEntry rng whereConditions =
     (if includesDot (key_r rng) then whereConditions @ [buildNestedRange rng]
      else whereConditions @ [JObj [(key_r rng, rangeLeaf rng)]])"

definition buildRangedFilter :: "RangedFilter list \<Rightarrow> jsval list" where
  "buildRangedFilter rs = fold rangeEntry rs []"

definition buildPagination :: "FilteringQuery \<Rightarrow> jsnum \<times> jsnum" where
  "buildPagination flt =
     (let take0 = Fin 10; skip0 = Fin 0
      in case page flt of
           None \<Rightarrow> (take0, skip0)
         | Some p \<Rightarrow>
             if numTruthy p then
               (case rows flt of
                  None \<Rightarrow> (take0, numTimes (Fin 10) (numMinusOne p))
                | Some r \<Rightarrow>
                    if numTruthy r then (r, numTimes (numMinusOne p) r)
                    else (take0, numTimes (Fin 10) (numMinusOne p)))
             else (take0, skip0))"

text \<open>Reading and writing an own property, and \<open>[...a, ...b]\<close> on the \<open>AND\<close> list.\<close>

fun getProp :: "jsval \<Rightarrow> string \<Rightarrow> jsval" where
  "getProp (JObj kvs) k = (case map_of kvs k of None \<Rightarrow> JUndefined | Some v \<Rightarrow> v)"
| "getProp _ k = JUndefined"

fun setProp :: "jsval \<Rightarrow> string \<Rightarrow> jsval \<Rightarrow> jsval" where
  "setProp (JObj kvs) k v =
     (if k \<in> set (map fst kvs) then JObj (map (\<lambda>(k', v'). if k' = k then (k', v) else (k', v')) kvs)
      else JObj (kvs @ [(k, v)]))"
| "setProp w k v = w"

definition appendAND :: "jsval \<Rightarrow> jsval list \<Rightarrow> jsval" where
  "appendAND w conds = setProp w ''AND'' (JArr (elements (getProp w ''AND'') @ conds))"

definition buildFilterQuery :: "FilteringQuery \<Rightarrow> QuerySpecification option \<Rightarrow> PrismaQueryOptions" where
  "buildFilterQuery flt specification =
     (let query = \<lparr>where_q = JObj [(''AND'', JArr [])], orderBy_q = JObj [],
                  take_q = Fin 10, skip_q = Fin 0\<rparr>;
          query = (case filters flt of
                     None \<Rightarrow> query
                   | Some fs \<Rightarrow> query\<lparr>where_q := appendAND (where_q query) (buildWhereQuery fs)\<rparr>);
          query = (case searchFilters flt of
                     None \<Rightarrow> query
                   | Some sfs \<Rightarrow>
                       query\<lparr>where_q := appendAND (where_q query) (buildSearchQuery sfs specification)\<rparr>);
          query = (case rangedFilters flt of
                     None \<Rightarrow> query
                   | Some rs \<Rightarrow> query\<lparr>where_q := appendAND (where_q query) (buildRangedFilter rs)\<rparr>);
          query = (case orderKey flt of
                     None \<Rightarrow> query
                   | Some k \<Rightarrow>
                       if k \<noteq> [] then
                         (let rule = (case orderRule flt of None \<Rightarrow> Asc | Some d \<Rightarrow> d)
                          in query\<lparr>orderBy_q := buildNestedOrderBy k rule\<rparr>)
                       else query);
          (tk, sk) = buildPagination flt
      in query\<lparr>take_q := tk, skip_q := sk\<rparr>)"

section \<open>The validator\<close>

record ValidationResult =
  isValid :: bool
  errors :: "string list"
  warnings :: "string list"

text \<open>A piece of a message between single quotes, as the template literals write it.\<close>

definition quoted :: "string \<Rightarrow> string" where
  "quoted s = CHR 0x27 # s @ [CHR 0x27]"

text \<open>\<open>list.includes(x)\<close> on an array of strings.\<close>

definition js_includes :: "string list \<Rightarrow> string \<Rightarrow> bool" where
  "js_includes xs x = (x \<in> set xs)"

text \<open>
  The loop of \<open>validateMultiLevelRelation\<close>,
  \<open>for (let i = 0; i < parts.length - 1; i++)\<close>, with its \<open>break\<close> after the first
  relation that is not allowed.
\<close>

function relationLoop ::
  "string list \<Rightarrow> string list \<Rightarrow> string \<Rightarrow> nat \<Rightarrow> string list \<Rightarrow> string list" where
  "relationLoop parts rels field i errs =
     (if i < length parts - 1 then
        (let relation = parts ! i
         in if \<not> js_includes rels relation then
              errs @ [''Relation '' @ quoted relation @ '' in field '' @ quoted field @ '' is not allowed'']
            else relationLoop parts rels field (Suc i) errs)
      else errs)"
  by pat_completeness auto
termination
  by (relation "measure (\<lambda>(parts, rels, field, i, errs). length parts - i)") auto

declare relationLoop.simps [simp del]

definition validateMultiLevelRelation ::
  "string \<Rightarrow> QuerySpecification \<Rightarrow> string list \<Rightarrow> string list" where
  "validateMultiLevelRelation field specification errs =
     (case allowedRelations specification of
        None \<Rightarrow> errs
      | Some rels \<Rightarrow> relationLoop (js_split field (CHR ''.'')) rels field 0 errs)"

text \<open>\<open>specification.allowedFields && !specification.allowedFields.includes(field)\<close>\<close>

definition notAllowed :: "QuerySpecification \<Rightarrow> string \<Rightarrow> bool" where
  "notAllowed specification field =
     (case allowedFields specification of None \<Rightarrow> False | Some af \<Rightarrow> \<not> js_includes af field)"

text \<open>\<open>specification.forbiddenFields?.includes(field)\<close>\<close>

definition isForbidden :: "QuerySpecification \<Rightarrow> string \<Rightarrow> bool" where
  "isForbidden specification field =
     (case forbiddenFields specification of None \<Rightarrow> False | Some ff \<Rightarrow> js_includes ff field)"

text \<open>
  The loop bodies of the validator. The arrays \<open>errors\<close> and \<open>warnings\<close>, which the source
  pushes to, are threaded through as a pair.
\<close>

fun filterEntry ::
  "QuerySpecification \<Rightarrow> string \<times> jsval \<Rightarrow> string list \<times> string list \<Rightarrow> string list \<times> string list" where
  "filterEntry specification (field, v) (errs, warns) =
     (if isNullish v then (errs, warns)
      else
        (let (errs, warns) =
               (if notAllowed specification field then
                  (if isForbidden specification field then
                     (errs @ [''Field '' @ quoted field @ '' is forbidden''], warns)
                   else (errs, warns @ [''Field '' @ quoted field @ '' is not in allowed fields list'']))
                else (errs, warns));
             errs = (if includesDot field then validateMultiLevelRelation field specification errs
                     else errs)
         in (errs, warns)))"

definition validateFilters ::
  "(string \<times> jsval) list \<Rightarrow> QuerySpecification \<Rightarrow> string list \<times> string list
     \<Rightarrow> string list \<times> string list" where
  "validateFilters fs specification st = fold (filterEntry specification) fs st"

fun searchFilterEntry ::
  "QuerySpecification \<Rightarrow> string \<times> jsval \<Rightarrow> string list \<times> string list \<Rightarrow> string list \<times> string list" where
  "searchFilterEntry specification (field, v) (errs, warns) =
     (if isNullish v then (errs, warns)
      else
        (let warns =
               (if notAllowed specification field then
                  warns @ [''Search field '' @ quoted field @ '' is not in allowed fields list'']
                else warns);
             errs = (if includesDot field then validateMultiLevelRelation field specification errs
                     else errs)
         in (errs, warns)))"

definition validateSearchFilters ::
  "(string \<times> jsval) list \<Rightarrow> QuerySpecification \<Rightarrow> string list \<times> string list
     \<Rightarrow> string list \<times> string list" where
  "validateSearchFilters sfs specification st = fold (searchFilterEntry specification) sfs st"

subsection \<open>Dates\<close>

text \<open>
  \<open>isValidDate\<close> tests its argument against
  \<open>/^\d{4}-\d{2}-\d{2}T\d{2}:\d{2}:\d{2}(?:\.\d+)?Z$/\<close>. The matcher reads the string from
  the left as the expression does: \<open>digitsN n\<close> is \<open>\d{n}\<close>, \<open>literal c\<close> a literal
  character, \<open>fractionZ\<close> the tail \<open>(?:\.\d+)?Z$\<close>. Each returns the rest of the string,
  or \<open>None\<close> where the expression does not match.
\<close>

definition isDigit :: "char \<Rightarrow> bool" where
  "isDigit c = (c \<in> set ''0123456789'')"

fun digitsN :: "nat \<Rightarrow> string \<Rightarrow> string option" where
  "digitsN 0 s = Some s"
| "digitsN (Suc n) [] = None"
| "digitsN (Suc n) (c # cs) = (if isDigit c then digitsN n cs else None)"

fun literal :: "char \<Rightarrow> string \<Rightarrow> string option" where
  "literal c [] = None"
| "literal c (d # ds) = (if d = c then Some ds else None)"

fun fractionZ :: "string \<Rightarrow> bool" where
  "fractionZ [] = False"
| "fractionZ (c # cs) =
     (if c = CHR ''Z'' then cs = []
      else if c = CHR ''.'' then
        (let ds = takeWhile isDigit cs in ds \<noteq> [] \<and> dropWhile isDigit cs = ''Z'')
      else False)"

definition matchesDateRegex :: "string \<Rightarrow> bool" where
  "matchesDateRegex s =
     (case Option.bind (Option.bind (Option.bind (Option.bind (Option.bind (Option.bind
           (Option.bind (Option.bind (Option.bind (Option.bind (digitsN 4 s)
             (literal (CHR ''-''))) (digitsN 2)) (literal (CHR ''-''))) (digitsN 2))
             (literal (CHR ''T''))) (digitsN 2)) (literal (CHR '':''))) (digitsN 2))
             (literal (CHR '':''))) (digitsN 2) of
        None \<Rightarrow> False
      | Some rest \<Rightarrow> fractionZ rest)"

fun isValidDate :: "jsval \<Rightarrow> bool" where
  "isValidDate (JStr s) = matchesDateRegex s"
| "isValidDate _ = False"

text \<open>
  \<open>new Date(s)\<close> belongs to the runtime, so the validator takes it as a parameter
  \<open>parseDate\<close>: the time value in milliseconds, or \<open>None\<close> for an invalid date, whose
  time value is \<open>NaN\<close>. \<open>startDate > endDate\<close> compares the time values and is false
  when either is \<open>NaN\<close>.
\<close>

fun dateAfter :: "int option \<Rightarrow> int option \<Rightarrow> bool" where
  "dateAfter (Some a) (Some b) = (a > b)"
| "dateAfter _ _ = False"

text \<open>A string bound as the template literal prints it; the date branch only has strings.\<close>

fun templateString :: "jsval \<Rightarrow> string" where
  "templateString (JStr s) = s"
| "templateString _ = []"

fun rangedFilterEntry ::
  "(string \<Rightarrow> int option) \<Rightarrow> QuerySpecification \<Rightarrow> RangedFilter
     \<Rightarrow> string list \<times> string list \<Rightarrow> string list \<times> string list" where
  "rangedFilterEntry parseDate specification rng (errs, warns) =
     (let warns =
            (if notAllowed specification (key_r rng) then
               warns @ [''Range field '' @ quoted (key_r rng) @ '' is not in allowed fields list'']
             else warns);
          errs = (if includesDot (key_r rng)
                  then validateMultiLevelRelation (key_r rng) specification errs
                  else errs);
          errs =
            (if isValidDate (start_r rng) \<and> isValidDate (end_r rng) then
               (let startDate = parseDate (templateString (start_r rng));
                    endDate = parseDate (templateString (end_r rng))
                in if dateAfter startDate endDate then
                     errs @ [''Range start date '' @ quoted (templateString (start_r rng))
                             @ '' is after end date '' @ quoted (templateString (end_r rng))]
                   else errs)
             else errs)
      in (errs, warns))"

definition validateRangedFilters ::
  "(string \<Rightarrow> int option) \<Rightarrow> RangedFilter list \<Rightarrow> QuerySpecification
     \<Rightarrow> string list \<times> string list \<Rightarrow> string list \<times> string list" where
  "validateRangedFilters parseDate rs specification st =
     fold (rangedFilterEntry parseDate specification) rs st"

definition validateOrderKey ::
  "string \<Rightarrow> QuerySpecification \<Rightarrow> string list \<times> string list \<Rightarrow> string list \<times> string list" where
  "validateOrderKey k specification st =
     (case st of (errs, warns) \<Rightarrow>
        (let warns =
               (if notAllowed specification k then
                  warns @ [''Order field '' @ quoted k @ '' is not in allowed fields list'']
                else warns);
             errs = (if includesDot k then validateMultiLevelRelation k specification errs else errs)
         in (errs, warns)))"

text \<open>
  The text of a number in a template literal is the runtime's, and the validator takes it
  as a parameter \<open>numberText\<close>, as it takes \<open>parseDate\<close>.
\<close>

definition validatePagination ::
  "(jsnum \<Rightarrow> string) \<Rightarrow> FilteringQuery \<Rightarrow> QuerySpecification \<Rightarrow> string list
     \<Rightarrow> string list" where
  "validatePagination numberText query specification errs =
     (let errs = (case page query of
                    None \<Rightarrow> errs
                  | Some p \<Rightarrow>
                      if numLess p (Fin 1) then errs @ [''Page number must be greater than 0'']
                      else errs)
      in case rows query of
           None \<Rightarrow> errs
         | Some r \<Rightarrow>
             if numLess r (Fin 1) then errs @ [''Rows per page must be greater than 0'']
             else (case maxPageSize specification of
                     None \<Rightarrow> errs
                   | Some m \<Rightarrow>
                       if numTruthy m \<and> numLess m r
                       then errs @ [''Rows per page cannot exceed '' @ numberText m]
                       else errs))"

definition validateQuery ::
  "(string \<Rightarrow> int option) \<Rightarrow> (jsnum \<Rightarrow> string) \<Rightarrow> FilteringQuery
     \<Rightarrow> QuerySpecification option \<Rightarrow> ValidationResult" where
  "validateQuery parseDate numberText query specification =
     (case specification of
        None \<Rightarrow> \<lparr>isValid = True, errors = [], warnings = []\<rparr>
      | Some spec \<Rightarrow>
          (let st = ([], []);
               st = (case filters query of None \<Rightarrow> st | Some fs \<Rightarrow> validateFilters fs spec st);
               st = (case searchFilters query of
                       None \<Rightarrow> st
                     | Some sfs \<Rightarrow> validateSearchFilters sfs spec st);
               st = (case rangedFilters query of
                       None \<Rightarrow> st
                     | Some rs \<Rightarrow> validateRangedFilters parseDate rs spec st);
               st = (case orderKey query of
                       None \<Rightarrow> st
                     | Some k \<Rightarrow> if k \<noteq> [] then validateOrderKey k spec st else st);
               errs = validatePagination numberText query spec (fst st)
           in \<lparr>isValid = (length errs = 0), errors = errs, warnings = snd st\<rparr>))"

section \<open>The runtime's functions in the examples\<close>

text \<open>
  The time value that \<open>new Date(s)\<close> has for a string \<open>s\<close> of the form
  \<open>YYYY-MM-DDTHH:mm:ss[.fraction]Z\<close>, after ECMAScript's Date Time String Format: months
  01 to 12, days 01 to 31, hours 00 to 24 (24 only as 24:00:00 with a fraction of zeros),
  minutes and seconds 00 to 59, the first three digits of the fraction as milliseconds.
  A day past the end of its month counts on into the next one. It instantiates
  \<open>parseDate\<close> in the examples; the theorems hold for every \<open>parseDate\<close>.
\<close>

definition digitValue :: "char \<Rightarrow> int" where
  "digitValue c = int (of_char c) - 48"

definition decimal :: "string \<Rightarrow> int" where
  "decimal s = foldl (\<lambda>a c. 10 * a + digitValue c) 0 s"

definition daysFromCivil :: "int \<Rightarrow> int \<Rightarrow> int \<Rightarrow> int" where
  "daysFromCivil y m d =
     (let y' = (if m \<le> 2 then y - 1 else y);
          era = y' div 400;
          yoe = y' - era * 400;
          mp = (m + 9) mod 12;
          doy = (153 * mp + 2) div 5 + d - 1;
          doe = yoe * 365 + yoe div 4 - yoe div 100 + doy
      in era * 146097 + doe - 719468)"

definition isoTimeValue :: "string \<Rightarrow> int option" where
  "isoTimeValue s =
     (if \<not> matchesDateRegex s then None
      else
        (let year = decimal (take 4 s);
             month = decimal (take 2 (drop 5 s));
             day = decimal (take 2 (drop 8 s));
             hour = decimal (take 2 (drop 11 s));
             minute = decimal (take 2 (drop 14 s));
             second = decimal (take 2 (drop 17 s));
             fraction = takeWhile isDigit (drop 20 s);
             ms = decimal (take 3 (fraction @ ''000''))
         in if 1 \<le> month \<and> month \<le> 12 \<and> 1 \<le> day \<and> day \<le> 31
               \<and> (hour \<le> 23 \<and> minute \<le> 59 \<and> second \<le> 59
                    \<or> hour = 24 \<and> minute = 0 \<and> second = 0
                      \<and> list_all (\<lambda>c. c = CHR ''0'') fraction)
            then Some (daysFromCivil year month day * 86400000
                       + hour * 3600000 + minute * 60000 + second * 1000 + ms)
            else None))"

text \<open>
  The text of a number as a template literal prints it: \<open>NaN\<close>, \<open>Infinity\<close>, or the
  decimal digits of an integer, which is how an integer below \<open>10 ^ 21\<close> in size is
  printed. It instantiates \<open>numberText\<close> in the examples.
\<close>

function natToString :: "nat \<Rightarrow> string" where
  "natToString n =
     (if n < 10 then [char_of (48 + n)]
      else natToString (n div 10) @ [char_of (48 + n mod 10)])"
  by pat_completeness auto
termination
  by (relation "measure id") auto

declare natToString.simps [simp del]

fun numberToString :: "jsnum \<Rightarrow> string" where
  "numberToString NaN = ''NaN''"
| "numberToString PosInfinity = ''Infinity''"
| "numberToString NegInfinity = ''-Infinity''"
| "numberToString (Fin i) =
     (if i < 0 then CHR ''-'' # natToString (nat (- i)) else natToString (nat i))"

section \<open>What the specification says, in its own words\<close>

subsection \<open>The nested fold\<close>

text \<open>
  The mapping \<open>{s1: {s2: ... {sn: leaf}}}\<close> for the segments \<open>s1 ... sn\<close>, and its
  reading back: \<open>unnest n v\<close> takes \<open>n\<close> one-key levels off \<open>v\<close> and returns their keys from
  the outermost to the innermost with what is left, or \<open>None\<close> when \<open>v\<close> is not nested that
  deep.
\<close>

definition nest :: "string list \<Rightarrow> jsval \<Rightarrow> jsval" where
  "nest segs leaf = foldr (\<lambda>seg inner. JObj [(seg, inner)]) segs leaf"

fun unnest :: "nat \<Rightarrow> jsval \<Rightarrow> (string list \<times> jsval) option" where
  "unnest 0 v = Some ([], v)"
| "unnest (Suc n) (JObj [(k, inner)]) =
     (case unnest n inner of None \<Rightarrow> None | Some (ks, leaf) \<Rightarrow> Some (k # ks, leaf))"
| "unnest (Suc n) _ = None"

text \<open>
  \<open>foldsPath path leaf result\<close>: for a path with \<open>k\<close> dots, \<open>result\<close> is nested \<open>k + 1\<close>
  levels deep, its keys are the path's segments from left to right, and \<open>leaf\<close> is at the
  deepest level.
\<close>

definition foldsPath :: "string \<Rightarrow> jsval \<Rightarrow> jsval \<Rightarrow> bool" where
  "foldsPath path leaf result =
     (let segs = js_split path (CHR ''.''); k = count_list path (CHR ''.'')
      in length segs = k + 1 \<and> result = nest segs leaf \<and> unnest (k + 1) result = Some (segs, leaf))"

text \<open>\<open>parts.join(sep)\<close>, to state that \<open>js_split\<close> loses nothing.\<close>

fun js_join :: "string list \<Rightarrow> char \<Rightarrow> string" where
  "js_join [] sep = []"
| "js_join [p] sep = p"
| "js_join (p # q # ps) sep = p @ sep # js_join (q # ps) sep"

definition segments :: "string \<Rightarrow> string list" where
  "segments path = js_split path (CHR ''.'')"

subsection \<open>Conditions of the builder\<close>

text \<open>The conditions one entry of \<open>filters\<close> adds to the top-level \<open>AND\<close>.\<close>

fun equalityConditions :: "string \<times> jsval \<Rightarrow> jsval list" where
  "equalityConditions (field, v) =
     (if isNullish v then []
      else if isArray v then
        [JObj [(''OR'', JArr (map (\<lambda>e. nest (segments field) e) (elements v)))]]
      else [nest (segments field) v])"

text \<open>A scalar: a string, a number or a boolean.\<close>

fun isScalar :: "jsval \<Rightarrow> bool" where
  "isScalar (JStr _) = True"
| "isScalar (JNum _) = True"
| "isScalar (JBool _) = True"
| "isScalar _ = False"

text \<open>\<open>hasKey k v\<close>: the key \<open>k\<close> appears in \<open>v\<close>, at any depth.\<close>

fun hasKey :: "string \<Rightarrow> jsval \<Rightarrow> bool" where
  "hasKey k (JObj kvs) = (\<exists>kv \<in> set kvs. fst kv = k \<or> hasKey k (snd kv))"
| "hasKey k (JArr vs) = (\<exists>v \<in> set vs. hasKey k v)"
| "hasKey k _ = False"

text \<open>The entries of a record whose value is neither \<open>null\<close> nor \<open>undefined\<close>.\<close>

definition nonNull :: "(string \<times> jsval) list \<Rightarrow> (string \<times> jsval) list" where
  "nonNull es = filter (\<lambda>kv. \<not> isNullish (snd kv)) es"

text \<open>The condition of one search field: the leaf \<open>{contains, mode}\<close> folded onto its path.\<close>

definition searchCondition :: "QuerySpecification option \<Rightarrow> string \<times> jsval \<Rightarrow> jsval" where
  "searchCondition specification kv =
     nest (segments (fst kv)) (searchLeaf (snd kv) (resolveSearchMode specification))"

definition rangeCondition :: "RangedFilter \<Rightarrow> jsval" where
  "rangeCondition r = nest (segments (key_r r)) (rangeLeaf r)"

text \<open>The conditions of the three stages, in the order the builder runs them.\<close>

definition andConditions :: "FilteringQuery \<Rightarrow> QuerySpecification option \<Rightarrow> jsval list" where
  "andConditions q specification =
     (case filters q of None \<Rightarrow> [] | Some fs \<Rightarrow> buildWhereQuery fs)
     @ (case searchFilters q of None \<Rightarrow> [] | Some sfs \<Rightarrow> buildSearchQuery sfs specification)
     @ (case rangedFilters q of None \<Rightarrow> [] | Some rs \<Rightarrow> buildRangedFilter rs)"

text \<open>\<open>rows ?? 10\<close>\<close>

fun rowsOrTen :: "jsnum option \<Rightarrow> jsnum" where
  "rowsOrTen None = Fin 10"
| "rowsOrTen (Some r) = r"

subsection \<open>Diagnostics of the validator\<close>

definition relationMessage :: "string \<Rightarrow> string \<Rightarrow> string" where
  "relationMessage seg path =
     ''Relation '' @ quoted seg @ '' in field '' @ quoted path @ '' is not allowed''"

definition forbiddenMessage :: "string \<Rightarrow> string" where
  "forbiddenMessage path = ''Field '' @ quoted path @ '' is forbidden''"

definition notListedMessage :: "string \<Rightarrow> string" where
  "notListedMessage path = ''Field '' @ quoted path @ '' is not in allowed fields list''"

definition searchNotListedMessage :: "string \<Rightarrow> string" where
  "searchNotListedMessage path = ''Search field '' @ quoted path @ '' is not in allowed fields list''"

definition rangeNotListedMessage :: "string \<Rightarrow> string" where
  "rangeNotListedMessage path = ''Range field '' @ quoted path @ '' is not in allowed fields list''"

definition orderNotListedMessage :: "string \<Rightarrow> string" where
  "orderNotListedMessage path = ''Order field '' @ quoted path @ '' is not in allowed fields list''"

definition startAfterEndMessage :: "RangedFilter \<Rightarrow> string" where
  "startAfterEndMessage r =
     ''Range start date '' @ quoted (templateString (start_r r))
       @ '' is after end date '' @ quoted (templateString (end_r r))"

text \<open>
  The relation errors of one path: the first segment before the last that is not in
  \<open>allowedRelations\<close>, if there is one, and nothing after it.
\<close>

definition relationErrors :: "QuerySpecification \<Rightarrow> string \<Rightarrow> string list" where
  "relationErrors specification path =
     (case allowedRelations specification of
        None \<Rightarrow> []
      | Some rels \<Rightarrow>
          (case find (\<lambda>seg. \<not> js_includes rels seg) (butlast (segments path)) of
             None \<Rightarrow> []
           | Some seg \<Rightarrow> [relationMessage seg path]))"

definition filterErrors :: "QuerySpecification \<Rightarrow> string \<times> jsval \<Rightarrow> string list" where
  "filterErrors specification kv =
     (if isNullish (snd kv) then []
      else (if notAllowed specification (fst kv) \<and> isForbidden specification (fst kv)
            then [forbiddenMessage (fst kv)] else [])
           @ relationErrors specification (fst kv))"

definition filterWarnings :: "QuerySpecification \<Rightarrow> string \<times> jsval \<Rightarrow> string list" where
  "filterWarnings specification kv =
     (if \<not> isNullish (snd kv) \<and> notAllowed specification (fst kv)
         \<and> \<not> isForbidden specification (fst kv)
      then [notListedMessage (fst kv)] else [])"

definition searchErrors :: "QuerySpecification \<Rightarrow> string \<times> jsval \<Rightarrow> string list" where
  "searchErrors specification kv =
     (if isNullish (snd kv) then [] else relationErrors specification (fst kv))"

definition searchWarnings :: "QuerySpecification \<Rightarrow> string \<times> jsval \<Rightarrow> string list" where
  "searchWarnings specification kv =
     (if \<not> isNullish (snd kv) \<and> notAllowed specification (fst kv)
      then [searchNotListedMessage (fst kv)] else [])"

text \<open>
  The pattern \<open>YYYY-MM-DDTHH:MM:SS[.fraction]Z\<close> in the specification's words: four
  digits, two, two, two, two and two, between the separators \<open>-\<close>, \<open>-\<close>, \<open>T\<close>, \<open>:\<close>
  and \<open>:\<close>, then an optional fraction, a dot with at least one digit, then \<open>Z\<close>.
\<close>

definition isoUtcPattern :: "string \<Rightarrow> bool" where
  "isoUtcPattern s =
     (\<exists>Y M D h m sec frac.
        s = Y @ ''-'' @ M @ ''-'' @ D @ ''T'' @ h @ '':'' @ m @ '':'' @ sec @ frac @ ''Z''
        \<and> length Y = 4 \<and> length M = 2 \<and> length D = 2
        \<and> length h = 2 \<and> length m = 2 \<and> length sec = 2
        \<and> list_all isDigit (Y @ M @ D @ h @ m @ sec)
        \<and> (frac = [] \<or> (\<exists>ds. frac = CHR ''.'' # ds \<and> ds \<noteq> [] \<and> list_all isDigit ds)))"

text \<open>
  \<open>startAfterEnd\<close>: both bounds are strings of the ISO pattern, both parse, and the
  start's date-time is strictly after the end's.
\<close>

definition startAfterEnd :: "(string \<Rightarrow> int option) \<Rightarrow> RangedFilter \<Rightarrow> bool" where
  "startAfterEnd parseDate r =
     (\<exists>s e a b. start_r r = JStr s \<and> end_r r = JStr e
        \<and> isoUtcPattern s \<and> isoUtcPattern e
        \<and> parseDate s = Some a \<and> parseDate e = Some b \<and> b < a)"

definition rangeErrors :: "(string \<Rightarrow> int option) \<Rightarrow> QuerySpecification \<Rightarrow> RangedFilter \<Rightarrow> string list" where
  "rangeErrors parseDate specification r =
     relationErrors specification (key_r r)
     @ (if startAfterEnd parseDate r then [startAfterEndMessage r] else [])"

definition rangeWarnings :: "QuerySpecification \<Rightarrow> RangedFilter \<Rightarrow> string list" where
  "rangeWarnings specification r =
     (if notAllowed specification (key_r r) then [rangeNotListedMessage (key_r r)] else [])"

text \<open>The errors of the pagination bounds.\<close>

definition paginationErrors ::
  "(jsnum \<Rightarrow> string) \<Rightarrow> FilteringQuery \<Rightarrow> QuerySpecification \<Rightarrow> string list" where
  "paginationErrors numberText q specification =
     (case page q of
        None \<Rightarrow> []
      | Some p \<Rightarrow> if numLess p (Fin 1) then [''Page number must be greater than 0''] else [])
     @ (case rows q of
          None \<Rightarrow> []
        | Some r \<Rightarrow>
            if numLess r (Fin 1) then [''Rows per page must be greater than 0'']
            else (case maxPageSize specification of
                    None \<Rightarrow> []
                  | Some m \<Rightarrow>
                      if numTruthy m \<and> numLess m r
                      then [''Rows per page cannot exceed '' @ numberText m]
                      else []))"

text \<open>All diagnostics of a validated request, stage after stage.\<close>

definition queryErrors ::
  "(string \<Rightarrow> int option) \<Rightarrow> (jsnum \<Rightarrow> string) \<Rightarrow> FilteringQuery \<Rightarrow> QuerySpecification
     \<Rightarrow> string list" where
  "queryErrors parseDate numberText q specification =
     (case filters q of None \<Rightarrow> [] | Some fs \<Rightarrow> concat (map (filterErrors specification) fs))
     @ (case searchFilters q of None \<Rightarrow> []
        | Some sfs \<Rightarrow> concat (map (searchErrors specification) sfs))
     @ (case rangedFilters q of None \<Rightarrow> []
        | Some rs \<Rightarrow> concat (map (rangeErrors parseDate specification) rs))
     @ (case orderKey q of
          None \<Rightarrow> []
        | Some k \<Rightarrow> if k \<noteq> [] then relationErrors specification k else [])
     @ paginationErrors numberText q specification"

definition queryWarnings :: "FilteringQuery \<Rightarrow> QuerySpecification \<Rightarrow> string list" where
  "queryWarnings q specification =
     (case filters q of None \<Rightarrow> [] | Some fs \<Rightarrow> concat (map (filterWarnings specification) fs))
     @ (case searchFilters q of None \<Rightarrow> []
        | Some sfs \<Rightarrow> concat (map (searchWarnings specification) sfs))
     @ (case rangedFilters q of None \<Rightarrow> []
        | Some rs \<Rightarrow> concat (map (rangeWarnings specification) rs))
     @ (case orderKey q of
          None \<Rightarrow> []
        | Some k \<Rightarrow>
            if k \<noteq> [] \<and> notAllowed specification k then [orderNotListedMessage k] else [])"

subsection \<open>Requests and specifications of the examples\<close>

definition emptyRequest :: FilteringQuery where
  "emptyRequest =
     \<lparr>filters = None, searchFilters = None, rangedFilters = None, orderKey = None,
      orderRule = None, page = None, rows = None\<rparr>"

definition emptySpecification :: QuerySpecification where
  "emptySpecification =
     \<lparr>allowedFields = None, forbiddenFields = None, allowedRelations = None,
      maxPageSize = None, defaultSearchMode = None\<rparr>"

section \<open>Rounding to a double\<close>

lemma ulpExponent_small: "a < 2 ^ 53 \<Longrightarrow> ulpExponent a = 0"
  by (subst ulpExponent.simps) simp

lemma ulpExponent_limit: "ulpExponent (2 ^ 53) = Suc 0"
proof -
  have "(2::int) ^ 53 div 2 < 2 ^ 53"
    by simp
  then have "ulpExponent ((2::int) ^ 53 div 2) = 0"
    by (rule ulpExponent_small)
  then show ?thesis
    by (subst ulpExponent.simps) simp
qed

lemma below_overflowThreshold: "v \<le> 2 ^ 53 \<Longrightarrow> \<not> overflowThreshold \<le> v"
proof -
  have "(2::int) ^ 53 < 2 ^ 1024"
    by (rule power_strict_increasing) simp_all
  then show "v \<le> 2 ^ 53 \<Longrightarrow> \<not> overflowThreshold \<le> v"
    unfolding overflowThreshold_def by linarith
qed

lemma roundToDouble_multiple:
  assumes e: "ulpExponent \<bar>n\<bar> = e" and r: "\<bar>n\<bar> mod 2 ^ e = 0"
    and o: "\<not> overflowThreshold \<le> \<bar>n\<bar>"
  shows "roundToDouble n = Fin n"
proof -
  have p: "(0::int) < 2 ^ e"
    by simp
  have v: "\<bar>n\<bar> div 2 ^ e * 2 ^ e = \<bar>n\<bar>"
    using r div_mult_mod_eq[of "\<bar>n\<bar>" "2 ^ e"] by simp
  have u: "\<not> ((2::int) ^ e < 2 * 0 \<or> (2 * 0 = (2::int) ^ e \<and> odd (\<bar>n\<bar> div 2 ^ e)))"
    using p by simp
  show ?thesis
    unfolding roundToDouble_def Let_def e r
    using u v o by (simp only: if_False) auto
qed

lemma roundToDouble_exact:
  assumes "\<bar>n\<bar> \<le> 2 ^ 53"
  shows "roundToDouble n = Fin n"
proof (cases "\<bar>n\<bar> < 2 ^ 53")
  case True
  then have "ulpExponent \<bar>n\<bar> = 0"
    by (rule ulpExponent_small)
  moreover have "\<bar>n\<bar> mod 2 ^ 0 = 0"
    by simp
  moreover have "\<not> overflowThreshold \<le> \<bar>n\<bar>"
    using assms by (rule below_overflowThreshold)
  ultimately show ?thesis
    by (rule roundToDouble_multiple)
next
  case False
  with assms have a: "\<bar>n\<bar> = 2 ^ 53"
    by linarith
  have "ulpExponent \<bar>n\<bar> = Suc 0"
    unfolding a by (rule ulpExponent_limit)
  moreover have "\<bar>n\<bar> mod 2 ^ Suc 0 = 0"
    unfolding a by simp
  moreover have "\<not> overflowThreshold \<le> \<bar>n\<bar>"
    using assms by (rule below_overflowThreshold)
  ultimately show ?thesis
    by (rule roundToDouble_multiple)
qed

lemma numTruthy_iff: "numTruthy x = (x \<noteq> NaN \<and> x \<noteq> Fin 0)"
  by (cases x) auto

lemma exact_page_product:
  "\<bar>a - 1\<bar> \<le> 2 ^ 53 \<Longrightarrow> \<bar>(a - 1) * b\<bar> \<le> 2 ^ 53
     \<Longrightarrow> numTimes (numMinusOne (Fin a)) (Fin b) = Fin ((a - 1) * b)"
  by (simp add: roundToDouble_exact)

lemma exact_ten_pages:
  "\<bar>a - 1\<bar> \<le> 2 ^ 53 \<Longrightarrow> \<bar>10 * (a - 1)\<bar> \<le> 2 ^ 53
     \<Longrightarrow> numTimes (Fin 10) (numMinusOne (Fin a)) = Fin (10 * (a - 1))"
  by (simp add: roundToDouble_exact)

section \<open>Splitting a path\<close>

lemma js_split_not_Nil: "js_split s c \<noteq> []"
  by (induction s) (auto split: list.splits)

lemma length_js_split: "length (js_split s c) = count_list s c + 1"
  using js_split_not_Nil[of _ c] by (induction s) (auto split: list.splits)

lemma js_split_no_sep: "c \<notin> set s \<Longrightarrow> js_split s c = [s]"
  by (induction s) auto

lemma js_join_Cons: "ps \<noteq> [] \<Longrightarrow> js_join ((x # p) # ps') c = x # js_join (p # ps') c"
  by (cases ps') simp_all

lemma js_join_split: "js_join (js_split s c) c = s"
proof (induction s)
  case Nil
  then show ?case by simp
next
  case (Cons x xs)
  obtain p ps where ps: "js_split xs c = p # ps"
    using js_split_not_Nil[of xs c] by (cases "js_split xs c") auto
  show ?case
  proof (cases "x = c")
    case True
    with Cons ps show ?thesis by simp
  next
    case False
    with Cons ps show ?thesis by (cases ps) simp_all
  qed
qed

lemma js_split_segments: "p \<in> set (js_split s c) \<Longrightarrow> c \<notin> set p"
proof (induction s arbitrary: p)
  case Nil
  then show ?case by simp
next
  case (Cons x xs)
  obtain q qs where qs: "js_split xs c = q # qs"
    using js_split_not_Nil[of xs c] by (cases "js_split xs c") auto
  have q: "c \<notin> set q" and rest: "\<And>r. r \<in> set qs \<Longrightarrow> c \<notin> set r"
    using Cons.IH qs by auto
  show ?case
  proof (cases "x = c")
    case True
    with Cons.prems qs q rest show ?thesis by auto
  next
    case False
    with Cons.prems qs q rest show ?thesis by auto
  qed
qed

section \<open>The nested fold\<close>

lemma nest_snoc: "nest (segs @ [seg]) leaf = nest segs (JObj [(seg, leaf)])"
  by (simp add: nest_def)

lemma nest_single: "nest [seg] leaf = JObj [(seg, leaf)]"
  by (simp add: nest_def)

lemma nest_Cons: "nest (seg # segs) leaf = JObj [(seg, nest segs leaf)]"
  by (simp add: nest_def)

lemma wrapLoop_take: "n \<le> length parts \<Longrightarrow> wrapLoop parts n cur = nest (take n parts) cur"
proof (induction n arbitrary: cur)
  case 0
  then show ?case by (simp add: nest_def)
next
  case (Suc n)
  then have "take (Suc n) parts = take n parts @ [parts ! n]"
    by (simp add: take_Suc_conv_app_nth)
  with Suc show ?case by (simp add: nest_snoc)
qed

lemma wrapLoop_butlast:
  assumes "parts \<noteq> []"
  shows "wrapLoop (butlast parts) (length parts - Suc 0) (JObj [(last parts, leaf)]) = nest parts leaf"
proof -
  have "wrapLoop (butlast parts) (length parts - Suc 0) (JObj [(last parts, leaf)])
        = nest (butlast parts) (JObj [(last parts, leaf)])"
    using wrapLoop_take[of "length (butlast parts)" "butlast parts"] by simp
  also have "\<dots> = nest (butlast parts @ [last parts]) leaf"
    by (simp add: nest_snoc)
  also have "\<dots> = nest parts leaf"
    using assms by simp
  finally show ?thesis .
qed

lemma unnest_nest: "unnest (length segs) (nest segs leaf) = Some (segs, leaf)"
  by (induction segs) (simp_all add: nest_def)

lemma buildNestedWhere_nest: "buildNestedWhere key v = nest (segments key) v"
  by (simp add: buildNestedWhere_def segments_def includesDot_def Let_def wrapLoop_butlast
      js_split_not_Nil js_split_no_sep nest_single)

lemma buildNestedSearch_nest: "buildNestedSearch key v m = nest (segments key) (searchLeaf v m)"
  by (simp add: buildNestedSearch_def segments_def includesDot_def Let_def wrapLoop_butlast
      js_split_not_Nil js_split_no_sep nest_single)

lemma buildNestedRange_nest: "buildNestedRange r = nest (segments (key_r r)) (rangeLeaf r)"
  by (simp add: buildNestedRange_def segments_def Let_def wrapLoop_butlast js_split_not_Nil)

lemma buildNestedOrderBy_nest: "buildNestedOrderBy k d = nest (segments k) (directionValue d)"
  by (simp add: buildNestedOrderBy_def segments_def includesDot_def Let_def wrapLoop_butlast
      js_split_not_Nil js_split_no_sep nest_single)

lemma segments_no_dot: "\<not> includesDot key \<Longrightarrow> segments key = [key]"
  by (simp add: segments_def includesDot_def js_split_no_sep)

lemma foldsPath_nest: "foldsPath path leaf (nest (segments path) leaf)"
  unfolding foldsPath_def Let_def segments_def
  using unnest_nest[of "js_split path (CHR ''.'')" leaf]
  by (simp add: length_js_split)

text \<open>
  C1. For every field path and every leaf, each of the four nested builders (equality
  filters and OR members, search leaves, range leaves, the order direction) returns, for
  a path with k dots, a mapping nested k + 1 levels deep whose keys from the outermost to
  the innermost are the path's segments from left to right, with the leaf at the deepest
  level; for a path with no dots it returns the one-key mapping from the path to the leaf.
  The segments are the pieces of the path between its dots: joined with dots they give
  the path back, and none of them holds a dot.
\<close>

theorem nested_fold_shape:
  "foldsPath key v (buildNestedWhere key v)
   \<and> foldsPath key (searchLeaf v m) (buildNestedSearch key v m)
   \<and> foldsPath (key_r r) (rangeLeaf r) (buildNestedRange r)
   \<and> foldsPath key (directionValue d) (buildNestedOrderBy key d)
   \<and> (\<not> includesDot key \<longrightarrow>
        buildNestedWhere key v = JObj [(key, v)]
        \<and> buildNestedSearch key v m = JObj [(key, searchLeaf v m)]
        \<and> buildNestedOrderBy key d = JObj [(key, directionValue d)])
   \<and> (\<not> includesDot (key_r r) \<longrightarrow> buildNestedRange r = JObj [(key_r r, rangeLeaf r)])
   \<and> js_join (js_split key (CHR ''.'')) (CHR ''.'') = key
   \<and> (\<forall>seg \<in> set (js_split key (CHR ''.'')). CHR ''.'' \<notin> set seg)"
  using js_split_segments[of _ key "CHR ''.''"]
  by (simp add: buildNestedWhere_nest buildNestedSearch_nest buildNestedRange_nest
      buildNestedOrderBy_nest foldsPath_nest segments_no_dot nest_single js_join_split)

theorem nested_fold_shape_witness:
  "unnest 3 (buildNestedWhere ''a.b.c'' (JNum 7)) = Some ([''a'', ''b'', ''c''], JNum 7)
   \<and> buildNestedWhere ''a.b.c'' (JNum 7) = JObj [(''a'', JObj [(''b'', JObj [(''c'', JNum 7)])])]
   \<and> buildNestedSearch ''title'' (JStr ''x'') Insensitive
       = JObj [(''title'', JObj [(''contains'', JStr ''x''), (''mode'', JStr ''insensitive'')])]
   \<and> buildNestedRange \<lparr>key_r = ''a.at'', start_r = JNum 1, end_r = JNum 2\<rparr>
       = JObj [(''a'', JObj [(''at'', JObj [(''gte'', JNum 1), (''lte'', JNum 2)])])]
   \<and> buildNestedOrderBy ''name'' Desc = JObj [(''name'', JStr ''desc'')]
   \<and> js_split ''a.b.c'' (CHR ''.'') = [''a'', ''b'', ''c'']"
  using nested_fold_shape [of "''a.b.c''" "JNum 7" Insensitive
      "\<lparr>key_r = ''a.at'', start_r = JNum 1, end_r = JNum 2\<rparr>" Desc]
    nested_fold_shape [of "''title''" "JStr ''x''" Insensitive
      "\<lparr>key_r = ''a.at'', start_r = JNum 1, end_r = JNum 2\<rparr>" Desc]
    nested_fold_shape [of "''name''" "JStr ''x''" Insensitive
      "\<lparr>key_r = ''a.at'', start_r = JNum 1, end_r = JNum 2\<rparr>" Desc]
  by (simp add: foldsPath_def includesDot_def nest_def searchLeaf_def rangeLeaf_def
      numeral_3_eq_3)

section \<open>The conditions of the builder\<close>

lemma whereEntry_appends: "whereEntry kv conds = conds @ equalityConditions kv"
  by (cases kv) (simp add: buildNestedWhere_nest segments_no_dot nest_single)

lemma fold_whereEntry: "fold whereEntry fs conds = conds @ concat (map equalityConditions fs)"
  by (induction fs arbitrary: conds) (simp_all add: whereEntry_appends)

lemma buildWhereQuery_conditions: "buildWhereQuery fs = concat (map equalityConditions fs)"
  by (simp add: buildWhereQuery_def fold_whereEntry)

lemma searchEntry_appends:
  "searchEntry multi spec kv (wc, orArr) =
     (let cs = (if isNullish (snd kv) then [] else [searchCondition spec kv])
      in if multi then (wc, orArr @ cs) else (wc @ cs, orArr))"
  by (cases kv)
     (simp add: searchCondition_def buildNestedSearch_nest segments_no_dot nest_single Let_def)

lemma fold_searchEntry:
  "fold (searchEntry multi spec) sfs (wc, orArr) =
     (if multi then (wc, orArr @ map (searchCondition spec) (nonNull sfs))
      else (wc @ map (searchCondition spec) (nonNull sfs), orArr))"
proof (cases multi)
  case True
  have "fold (searchEntry True spec) sfs (wc, orArr)
        = (wc, orArr @ map (searchCondition spec) (nonNull sfs))"
    by (induction sfs arbitrary: orArr) (simp_all add: searchEntry_appends nonNull_def Let_def)
  with True show ?thesis by simp
next
  case False
  have "fold (searchEntry False spec) sfs (wc, orArr)
        = (wc @ map (searchCondition spec) (nonNull sfs), orArr)"
    by (induction sfs arbitrary: wc) (simp_all add: searchEntry_appends nonNull_def Let_def)
  with False show ?thesis by simp
qed

lemma buildSearchQuery_conditions:
  "buildSearchQuery sfs spec =
     (if 1 < length sfs then
        (if nonNull sfs = [] then []
         else [JObj [(''OR'', JArr (map (searchCondition spec) (nonNull sfs)))]])
      else map (searchCondition spec) (nonNull sfs))"
  by (simp add: buildSearchQuery_def fold_searchEntry Let_def)

lemma rangeEntry_appends: "rangeEntry r conds = conds @ [rangeCondition r]"
  by (simp add: rangeCondition_def buildNestedRange_nest segments_no_dot nest_single)

lemma fold_rangeEntry: "fold rangeEntry rs conds = conds @ map rangeCondition rs"
  by (induction rs arbitrary: conds) (simp_all add: rangeEntry_appends del: rangeEntry.simps)

lemma buildRangedFilter_conditions: "buildRangedFilter rs = map rangeCondition rs"
  by (simp add: buildRangedFilter_def fold_rangeEntry)

lemma appendAND_list: "appendAND (JObj [(''AND'', JArr xs)]) ys = JObj [(''AND'', JArr (xs @ ys))]"
  by (simp add: appendAND_def)

lemma buildFilterQuery_where:
  "where_q (buildFilterQuery q spec) = JObj [(''AND'', JArr (andConditions q spec))]"
  by (simp add: buildFilterQuery_def andConditions_def Let_def appendAND_list
      split: option.splits prod.splits)

lemma buildFilterQuery_orderBy:
  "orderBy_q (buildFilterQuery q spec) =
     (case orderKey q of
        None \<Rightarrow> JObj []
      | Some k \<Rightarrow>
          if k \<noteq> []
          then buildNestedOrderBy k (case orderRule q of None \<Rightarrow> Asc | Some d \<Rightarrow> d)
          else JObj [])"
  by (simp add: buildFilterQuery_def Let_def split: option.splits prod.splits)

lemma buildFilterQuery_pagination:
  "(take_q (buildFilterQuery q spec), skip_q (buildFilterQuery q spec)) = buildPagination q"
  by (simp add: buildFilterQuery_def Let_def split: option.splits prod.splits)

lemma hasKey_nest_scalar:
  "isScalar v \<Longrightarrow> hasKey k (nest segs v) = (k \<in> set segs)"
proof (induction segs)
  case Nil
  then show ?case by (cases v) (simp_all add: nest_def)
next
  case (Cons s segs)
  then show ?case by (auto simp: nest_Cons)
qed

lemma isScalar_plain: "isScalar v \<Longrightarrow> \<not> isNullish v \<and> \<not> isArray v"
  by (cases v) simp_all

lemma isArray_elements: "isArray v \<Longrightarrow> v = JArr (elements v) \<and> \<not> isNullish v"
  by (cases v) simp_all

text \<open>
  C2, as amended. For every entry (field, value) of filters whose value is neither null
  nor absent, the loop of the builder appends exactly one condition, and the conditions
  of all entries, in order, are the first members of the top-level AND: for a list, the
  condition {OR: [...]} with one independently folded member per element, in element
  order; otherwise the folded condition itself, with no OR group around it. For a scalar
  value the key OR appears in that condition exactly when a segment of the field path is
  OR.
\<close>

theorem equality_filter_conditions:
  "buildWhereQuery fs = concat (map equalityConditions fs)
   \<and> (filters q = Some fs \<longrightarrow>
        where_q (buildFilterQuery q spec)
          = JObj [(''AND'', JArr (concat (map equalityConditions fs)
              @ (case searchFilters q of None \<Rightarrow> [] | Some sfs \<Rightarrow> buildSearchQuery sfs spec)
              @ (case rangedFilters q of None \<Rightarrow> [] | Some rs \<Rightarrow> buildRangedFilter rs)))])
   \<and> (isArray v \<longrightarrow>
        whereEntry (field, v) conds
          = conds @ [JObj [(''OR'', JArr (map (nest (segments field)) (elements v)))]]
        \<and> length (map (nest (segments field)) (elements v)) = length (elements v))
   \<and> (\<not> isNullish v \<and> \<not> isArray v \<longrightarrow>
        whereEntry (field, v) conds = conds @ [nest (segments field) v])
   \<and> (isScalar v \<longrightarrow>
        whereEntry (field, v) conds = conds @ [nest (segments field) v]
        \<and> hasKey ''OR'' (nest (segments field) v) = (''OR'' \<in> set (segments field)))"
proof -
  have a: "buildWhereQuery fs = concat (map equalityConditions fs)"
    by (rule buildWhereQuery_conditions)
  have b: "filters q = Some fs \<longrightarrow>
        where_q (buildFilterQuery q spec)
          = JObj [(''AND'', JArr (concat (map equalityConditions fs)
              @ (case searchFilters q of None \<Rightarrow> [] | Some sfs \<Rightarrow> buildSearchQuery sfs spec)
              @ (case rangedFilters q of None \<Rightarrow> [] | Some rs \<Rightarrow> buildRangedFilter rs)))]"
    by (simp add: buildFilterQuery_where andConditions_def buildWhereQuery_conditions)
  have c: "isArray v \<longrightarrow>
        whereEntry (field, v) conds
          = conds @ [JObj [(''OR'', JArr (map (nest (segments field)) (elements v)))]]
        \<and> length (map (nest (segments field)) (elements v)) = length (elements v)"
    using isArray_elements[of v] by (simp add: whereEntry_appends del: whereEntry.simps)
  have d: "\<not> isNullish v \<and> \<not> isArray v \<longrightarrow>
        whereEntry (field, v) conds = conds @ [nest (segments field) v]"
    by (simp add: whereEntry_appends del: whereEntry.simps)
  have e: "isScalar v \<longrightarrow>
        whereEntry (field, v) conds = conds @ [nest (segments field) v]
        \<and> hasKey ''OR'' (nest (segments field) v) = (''OR'' \<in> set (segments field))"
    using isScalar_plain[of v] hasKey_nest_scalar[of v "''OR''" "segments field"]
    by (simp add: whereEntry_appends del: whereEntry.simps)
  from a b c d e show ?thesis by blast
qed

theorem equality_filter_conditions_witness:
  "buildWhereQuery [(''a.b'', JArr [JStr ''US'', JStr ''EU'']), (''n'', JNull), (''s'', JNum 1)]
     = [JObj [(''OR'', JArr [JObj [(''a'', JObj [(''b'', JStr ''US'')])],
                              JObj [(''a'', JObj [(''b'', JStr ''EU'')])]])],
        JObj [(''s'', JNum 1)]]
   \<and> whereEntry (''a.b'', JArr [JStr ''US'', JStr ''EU'']) []
       = [JObj [(''OR'', JArr [JObj [(''a'', JObj [(''b'', JStr ''US'')])],
                                JObj [(''a'', JObj [(''b'', JStr ''EU'')])]])]]
   \<and> whereEntry (''a.b'', JNum 1) [] = [JObj [(''a'', JObj [(''b'', JNum 1)])]]
   \<and> \<not> hasKey ''OR'' (nest (segments ''a.b'') (JNum 1))
   \<and> where_q (buildFilterQuery (emptyRequest\<lparr>filters := Some [(''s'', JNum 1)]\<rparr>) None)
       = JObj [(''AND'', JArr [JObj [(''s'', JNum 1)]])]"
  using equality_filter_conditions
      [of "[(''a.b'', JArr [JStr ''US'', JStr ''EU'']), (''n'', JNull), (''s'', JNum 1)]"
          "emptyRequest\<lparr>filters := Some [(''s'', JNum 1)]\<rparr>" None
          "JArr [JStr ''US'', JStr ''EU'']" "''a.b''" "[]"]
    equality_filter_conditions
      [of "[(''s'', JNum 1)]" "emptyRequest\<lparr>filters := Some [(''s'', JNum 1)]\<rparr>" None
          "JNum 1" "''a.b''" "[]"]
  by (simp add: emptyRequest_def segments_def nest_def includesDot_def buildNestedWhere_nest)

text \<open>
  C2 as stated fails for a field path with a segment OR: the scalar filter
  \<open>{OR: 'x'}\<close> gives the condition \<open>{OR: 'x'}\<close>, in which the key OR appears.
\<close>

theorem scalar_filter_or_key_counterexample:
  "isScalar (JStr ''x'')
   \<and> buildWhereQuery [(''OR'', JStr ''x'')] = [JObj [(''OR'', JStr ''x'')]]
   \<and> hasKey ''OR'' (JObj [(''OR'', JStr ''x'')])"
  by (simp add: buildWhereQuery_def includesDot_def)

lemma searchCondition_leaf:
  "searchCondition spec (field, v) =
     nest (segments field)
       (JObj [(''contains'', v), (''mode'', JStr (modeString (resolveSearchMode spec)))])"
  by (simp add: searchCondition_def searchLeaf_def)

text \<open>
  C3, as amended. If searchFilters has more than one key and at least one value that is
  not null, the builder collects the conditions of the fields with a value into exactly
  one {OR: [...]} group, one member per such field in order, and appends it to the AND
  list; if searchFilters has exactly one key, the condition of that field is appended
  directly, with no OR group around it. Each leaf is {contains: value, mode: m}, where m
  is the specification's defaultSearchMode when it is set and insensitive otherwise.
\<close>

theorem search_filter_conditions:
  "(1 < length sfs \<and> nonNull sfs \<noteq> [] \<longrightarrow>
      buildSearchQuery sfs spec = [JObj [(''OR'', JArr (map (searchCondition spec) (nonNull sfs)))]]
      \<and> length (map (searchCondition spec) (nonNull sfs)) = length (nonNull sfs))
   \<and> (length sfs = 1 \<longrightarrow> buildSearchQuery sfs spec = map (searchCondition spec) (nonNull sfs))
   \<and> (\<not> isNullish v \<longrightarrow>
        buildSearchQuery [(field, v)] spec
          = [nest (segments field)
               (JObj [(''contains'', v), (''mode'', JStr (modeString (resolveSearchMode spec)))])])
   \<and> searchCondition spec (field, v)
        = nest (segments field)
            (JObj [(''contains'', v), (''mode'', JStr (modeString (resolveSearchMode spec)))])
   \<and> resolveSearchMode None = Insensitive
   \<and> (defaultSearchMode s = None \<longrightarrow> resolveSearchMode (Some s) = Insensitive)
   \<and> (defaultSearchMode s = Some m \<longrightarrow> resolveSearchMode (Some s) = m)
   \<and> (searchFilters q = Some sfs \<longrightarrow>
        where_q (buildFilterQuery q spec)
          = JObj [(''AND'', JArr ((case filters q of None \<Rightarrow> [] | Some fs \<Rightarrow> buildWhereQuery fs)
              @ buildSearchQuery sfs spec
              @ (case rangedFilters q of None \<Rightarrow> [] | Some rs \<Rightarrow> buildRangedFilter rs)))])"
proof -
  have a: "1 < length sfs \<and> nonNull sfs \<noteq> [] \<longrightarrow>
      buildSearchQuery sfs spec = [JObj [(''OR'', JArr (map (searchCondition spec) (nonNull sfs)))]]
      \<and> length (map (searchCondition spec) (nonNull sfs)) = length (nonNull sfs)"
    by (simp add: buildSearchQuery_conditions)
  have b: "length sfs = 1 \<longrightarrow> buildSearchQuery sfs spec = map (searchCondition spec) (nonNull sfs)"
    by (simp add: buildSearchQuery_conditions)
  have c: "\<not> isNullish v \<longrightarrow>
        buildSearchQuery [(field, v)] spec
          = [nest (segments field)
               (JObj [(''contains'', v), (''mode'', JStr (modeString (resolveSearchMode spec)))])]"
    by (simp add: buildSearchQuery_conditions nonNull_def searchCondition_leaf)
  have d: "searchFilters q = Some sfs \<longrightarrow>
        where_q (buildFilterQuery q spec)
          = JObj [(''AND'', JArr ((case filters q of None \<Rightarrow> [] | Some fs \<Rightarrow> buildWhereQuery fs)
              @ buildSearchQuery sfs spec
              @ (case rangedFilters q of None \<Rightarrow> [] | Some rs \<Rightarrow> buildRangedFilter rs)))]"
    by (simp add: buildFilterQuery_where andConditions_def)
  from a b c d show ?thesis
    by (simp add: searchCondition_leaf)
qed

theorem search_filter_conditions_witness:
  "buildSearchQuery [(''title'', JStr ''r''), (''a.bio'', JStr ''e'')] None
     = [JObj [(''OR'', JArr
          [JObj [(''title'', JObj [(''contains'', JStr ''r''), (''mode'', JStr ''insensitive'')])],
           JObj [(''a'', JObj [(''bio'', JObj [(''contains'', JStr ''e''),
                                               (''mode'', JStr ''insensitive'')])])]])]]
   \<and> buildSearchQuery [(''title'', JStr ''r'')]
        (Some (emptySpecification\<lparr>defaultSearchMode := Some Sensitive\<rparr>))
       = [JObj [(''title'', JObj [(''contains'', JStr ''r''), (''mode'', JStr ''sensitive'')])]]
   \<and> where_q (buildFilterQuery (emptyRequest\<lparr>searchFilters := Some [(''title'', JStr ''r'')]\<rparr>)
        (Some (emptySpecification\<lparr>defaultSearchMode := Some Sensitive\<rparr>)))
       = JObj [(''AND'', JArr
           [JObj [(''title'', JObj [(''contains'', JStr ''r''), (''mode'', JStr ''sensitive'')])]])]"
  using search_filter_conditions
      [of "[(''title'', JStr ''r''), (''a.bio'', JStr ''e'')]" None "JStr ''r''" "''title''"
          "emptySpecification\<lparr>defaultSearchMode := Some Sensitive\<rparr>" Sensitive
          "emptyRequest\<lparr>searchFilters := Some [(''title'', JStr ''r'')]\<rparr>"]
    search_filter_conditions
      [of "[(''title'', JStr ''r'')]"
          "Some (emptySpecification\<lparr>defaultSearchMode := Some Sensitive\<rparr>)" "JStr ''r''" "''title''"
          "emptySpecification\<lparr>defaultSearchMode := Some Sensitive\<rparr>" Sensitive
          "emptyRequest\<lparr>searchFilters := Some [(''title'', JStr ''r'')]\<rparr>"]
  by (simp add: emptyRequest_def emptySpecification_def segments_def nest_def nonNull_def
      searchCondition_def searchLeaf_def)

text \<open>
  C3 as stated fails where a key of searchFilters has the value null: with two keys that
  are both null no OR group is appended, and with two keys of which one is null the one
  condition is still put in an OR group.
\<close>

theorem search_or_group_counterexample:
  "buildSearchQuery [(''a'', JNull), (''b'', JNull)] None = []
   \<and> buildSearchQuery [(''a'', JStr ''x''), (''b'', JNull)] None
       = [JObj [(''OR'', JArr
            [JObj [(''a'', JObj [(''contains'', JStr ''x''), (''mode'', JStr ''insensitive'')])]])]]"
  by (simp add: buildSearchQuery_def includesDot_def searchLeaf_def)

text \<open>
  C9. Whether the search conditions are put in an OR group is decided by the number of
  keys of searchFilters, the keys with a null or undefined value counted: with two or
  more keys of which exactly one has a value, the one condition is put in a one-element
  {OR: [...]} group; with two or more keys that are all null, nothing is appended to the
  AND list, and no empty OR group either.
\<close>

theorem search_or_wrapping_counts_null_keys:
  "(2 \<le> length sfs \<and> nonNull sfs = [kv] \<longrightarrow>
      buildSearchQuery sfs spec = [JObj [(''OR'', JArr [searchCondition spec kv])]])
   \<and> (2 \<le> length sfs \<and> nonNull sfs = [] \<longrightarrow> buildSearchQuery sfs spec = [])
   \<and> (searchFilters q = Some sfs \<and> 2 \<le> length sfs \<and> nonNull sfs = [] \<longrightarrow>
        where_q (buildFilterQuery q spec)
          = JObj [(''AND'', JArr ((case filters q of None \<Rightarrow> [] | Some fs \<Rightarrow> buildWhereQuery fs)
              @ (case rangedFilters q of None \<Rightarrow> [] | Some rs \<Rightarrow> buildRangedFilter rs)))])
   \<and> (length sfs \<le> 1 \<longrightarrow> buildSearchQuery sfs spec = map (searchCondition spec) (nonNull sfs))"
  by (simp add: buildSearchQuery_conditions buildFilterQuery_where andConditions_def)

theorem search_or_wrapping_counts_null_keys_witness:
  "buildSearchQuery [(''a'', JNull), (''b'', JStr ''x'')] None
     = [JObj [(''OR'', JArr
          [JObj [(''b'', JObj [(''contains'', JStr ''x''), (''mode'', JStr ''insensitive'')])]])]]
   \<and> buildSearchQuery [(''a'', JNull), (''b'', JUndefined)] None = []
   \<and> where_q (buildFilterQuery
        (emptyRequest\<lparr>searchFilters := Some [(''a'', JNull), (''b'', JUndefined)]\<rparr>) None)
       = JObj [(''AND'', JArr [])]"
  using search_or_wrapping_counts_null_keys
      [of "[(''a'', JNull), (''b'', JStr ''x'')]" "(''b'', JStr ''x'')" None emptyRequest]
    search_or_wrapping_counts_null_keys
      [of "[(''a'', JNull), (''b'', JUndefined)]" "(''b'', JStr ''x'')" None
          "emptyRequest\<lparr>searchFilters := Some [(''a'', JNull), (''b'', JUndefined)]\<rparr>"]
  by (simp add: emptyRequest_def segments_def nest_def nonNull_def
      searchCondition_def searchLeaf_def)

text \<open>
  C10. For the empty request the builder returns {where: {AND: []}, orderBy: {}, take: 10,
  skip: 0}; for every request the AND of the output's where is a list, the conditions
  of the three stages in order, and orderBy is {} whenever orderKey is absent.
\<close>

theorem empty_request_and_output_shape:
  "buildFilterQuery emptyRequest spec
     = \<lparr>where_q = JObj [(''AND'', JArr [])], orderBy_q = JObj [],
        take_q = Fin 10, skip_q = Fin 0\<rparr>
   \<and> where_q (buildFilterQuery q spec) = JObj [(''AND'', JArr (andConditions q spec))]
   \<and> getProp (where_q (buildFilterQuery q spec)) ''AND'' = JArr (andConditions q spec)
   \<and> isArray (getProp (where_q (buildFilterQuery q spec)) ''AND'')
   \<and> (orderKey q = None \<longrightarrow> orderBy_q (buildFilterQuery q spec) = JObj [])"
proof -
  have "buildFilterQuery emptyRequest spec
     = \<lparr>where_q = JObj [(''AND'', JArr [])], orderBy_q = JObj [],
        take_q = Fin 10, skip_q = Fin 0\<rparr>"
    by (simp add: buildFilterQuery_def emptyRequest_def buildPagination_def)
  then show ?thesis
    by (simp add: buildFilterQuery_where buildFilterQuery_orderBy)
qed

theorem empty_request_and_output_shape_witness:
  "orderBy_q (buildFilterQuery (emptyRequest\<lparr>orderRule := Some Desc, page := Some (Fin 2)\<rparr>) None) = JObj []
   \<and> where_q (buildFilterQuery (emptyRequest\<lparr>orderRule := Some Desc, page := Some (Fin 2)\<rparr>) None)
       = JObj [(''AND'', JArr [])]"
  using empty_request_and_output_shape
      [of None "emptyRequest\<lparr>orderRule := Some Desc, page := Some (Fin 2)\<rparr>"]
  by (simp add: emptyRequest_def andConditions_def)

text \<open>
  C4, as amended. With page and rows both set and truthy (neither 0 nor NaN), take is
  rows and skip is (page - 1) * rows; with page set and truthy and rows unset, 0 or NaN,
  take is 10 and skip is 10 * (page - 1); with page unset, 0 or NaN, take is 10 and skip
  is 0, whatever rows is. The difference and the products are those of the code's double
  arithmetic; for integers page and rows with page - 1 and the product at most 2 ^ 53 in
  size they are the exact integers. So page 2 with rows 25 gives skip 25 and take 25, and
  page 3 with no rows gives skip 20 and take 10.
\<close>

theorem pagination_take_skip:
  "(page q = Some p \<and> numTruthy p \<and> rows q = Some r \<and> numTruthy r \<longrightarrow>
      take_q (buildFilterQuery q spec) = r
      \<and> skip_q (buildFilterQuery q spec) = numTimes (numMinusOne p) r)
   \<and> (page q = Some p \<and> numTruthy p
        \<and> (rows q = None \<or> (\<exists>r'. rows q = Some r' \<and> \<not> numTruthy r')) \<longrightarrow>
      take_q (buildFilterQuery q spec) = Fin 10
      \<and> skip_q (buildFilterQuery q spec) = numTimes (Fin 10) (numMinusOne p))
   \<and> (page q = None \<or> (\<exists>p'. page q = Some p' \<and> \<not> numTruthy p') \<longrightarrow>
      take_q (buildFilterQuery q spec) = Fin 10 \<and> skip_q (buildFilterQuery q spec) = Fin 0)
   \<and> (numTruthy x \<longleftrightarrow> x \<noteq> NaN \<and> x \<noteq> Fin 0)
   \<and> (page q = Some (Fin a) \<and> a \<noteq> 0 \<and> rows q = Some (Fin b) \<and> b \<noteq> 0
        \<and> \<bar>a - 1\<bar> \<le> 2 ^ 53 \<and> \<bar>(a - 1) * b\<bar> \<le> 2 ^ 53 \<longrightarrow>
      take_q (buildFilterQuery q spec) = Fin b
      \<and> skip_q (buildFilterQuery q spec) = Fin ((a - 1) * b))
   \<and> (page q = Some (Fin a) \<and> a \<noteq> 0
        \<and> (rows q = None \<or> rows q = Some (Fin 0) \<or> rows q = Some NaN)
        \<and> \<bar>a - 1\<bar> \<le> 2 ^ 53 \<and> \<bar>10 * (a - 1)\<bar> \<le> 2 ^ 53 \<longrightarrow>
      take_q (buildFilterQuery q spec) = Fin 10
      \<and> skip_q (buildFilterQuery q spec) = Fin (10 * (a - 1)))"
proof -
  have g: "(take_q (buildFilterQuery q spec), skip_q (buildFilterQuery q spec)) = buildPagination q"
    by (rule buildFilterQuery_pagination)
  have 1: "page q = Some p \<and> numTruthy p \<and> rows q = Some r \<and> numTruthy r \<longrightarrow>
      take_q (buildFilterQuery q spec) = r
      \<and> skip_q (buildFilterQuery q spec) = numTimes (numMinusOne p) r"
    using g by (auto simp: buildPagination_def)
  have 2: "page q = Some p \<and> numTruthy p
        \<and> (rows q = None \<or> (\<exists>r'. rows q = Some r' \<and> \<not> numTruthy r')) \<longrightarrow>
      take_q (buildFilterQuery q spec) = Fin 10
      \<and> skip_q (buildFilterQuery q spec) = numTimes (Fin 10) (numMinusOne p)"
    using g by (auto simp: buildPagination_def Let_def)
  have 3: "page q = None \<or> (\<exists>p'. page q = Some p' \<and> \<not> numTruthy p') \<longrightarrow>
      take_q (buildFilterQuery q spec) = Fin 10 \<and> skip_q (buildFilterQuery q spec) = Fin 0"
    using g by (auto simp: buildPagination_def)
  have 5: "page q = Some (Fin a) \<and> a \<noteq> 0 \<and> rows q = Some (Fin b) \<and> b \<noteq> 0
        \<and> \<bar>a - 1\<bar> \<le> 2 ^ 53 \<and> \<bar>(a - 1) * b\<bar> \<le> 2 ^ 53 \<longrightarrow>
      take_q (buildFilterQuery q spec) = Fin b
      \<and> skip_q (buildFilterQuery q spec) = Fin ((a - 1) * b)"
  proof (intro impI)
    assume h: "page q = Some (Fin a) \<and> a \<noteq> 0 \<and> rows q = Some (Fin b) \<and> b \<noteq> 0
        \<and> \<bar>a - 1\<bar> \<le> 2 ^ 53 \<and> \<bar>(a - 1) * b\<bar> \<le> 2 ^ 53"
    then have b1: "\<bar>a - 1\<bar> \<le> 2 ^ 53" and b2: "\<bar>(a - 1) * b\<bar> \<le> 2 ^ 53"
      by blast+
    have e: "numTimes (numMinusOne (Fin a)) (Fin b) = Fin ((a - 1) * b)"
      using b1 b2 by (rule exact_page_product)
    have bp: "buildPagination q = (Fin b, numTimes (numMinusOne (Fin a)) (Fin b))"
      using h by (simp add: buildPagination_def Let_def del: numTimes.simps numMinusOne.simps)
    from g[unfolded bp e]
    show "take_q (buildFilterQuery q spec) = Fin b
      \<and> skip_q (buildFilterQuery q spec) = Fin ((a - 1) * b)"
      by simp
  qed
  have 6: "page q = Some (Fin a) \<and> a \<noteq> 0
        \<and> (rows q = None \<or> rows q = Some (Fin 0) \<or> rows q = Some NaN)
        \<and> \<bar>a - 1\<bar> \<le> 2 ^ 53 \<and> \<bar>10 * (a - 1)\<bar> \<le> 2 ^ 53 \<longrightarrow>
      take_q (buildFilterQuery q spec) = Fin 10
      \<and> skip_q (buildFilterQuery q spec) = Fin (10 * (a - 1))"
  proof (intro impI)
    assume h: "page q = Some (Fin a) \<and> a \<noteq> 0
        \<and> (rows q = None \<or> rows q = Some (Fin 0) \<or> rows q = Some NaN)
        \<and> \<bar>a - 1\<bar> \<le> 2 ^ 53 \<and> \<bar>10 * (a - 1)\<bar> \<le> 2 ^ 53"
    then have b1: "\<bar>a - 1\<bar> \<le> 2 ^ 53" and b2: "\<bar>10 * (a - 1)\<bar> \<le> 2 ^ 53"
      by blast+
    have e: "numTimes (Fin 10) (numMinusOne (Fin a)) = Fin (10 * (a - 1))"
      using b1 b2 by (rule exact_ten_pages)
    have bp: "buildPagination q = (Fin 10, numTimes (Fin 10) (numMinusOne (Fin a)))"
      using h by (auto simp: buildPagination_def Let_def simp del: numTimes.simps numMinusOne.simps)
    from g[unfolded bp e]
    show "take_q (buildFilterQuery q spec) = Fin 10
      \<and> skip_q (buildFilterQuery q spec) = Fin (10 * (a - 1))"
      by simp
  qed
  from 1 2 3 5 6 numTruthy_iff[of x] show ?thesis
    by blast
qed

theorem pagination_take_skip_witness:
  "take_q (buildFilterQuery (emptyRequest\<lparr>page := Some (Fin 2), rows := Some (Fin 25)\<rparr>) None) = Fin 25
   \<and> skip_q (buildFilterQuery (emptyRequest\<lparr>page := Some (Fin 2), rows := Some (Fin 25)\<rparr>) None)
       = Fin 25
   \<and> take_q (buildFilterQuery (emptyRequest\<lparr>page := Some (Fin 3)\<rparr>) None) = Fin 10
   \<and> skip_q (buildFilterQuery (emptyRequest\<lparr>page := Some (Fin 3)\<rparr>) None) = Fin 20
   \<and> take_q (buildFilterQuery (emptyRequest\<lparr>rows := Some (Fin 25)\<rparr>) None) = Fin 10
   \<and> skip_q (buildFilterQuery (emptyRequest\<lparr>rows := Some (Fin 25)\<rparr>) None) = Fin 0
   \<and> skip_q (buildFilterQuery (emptyRequest\<lparr>page := Some NaN, rows := Some (Fin 25)\<rparr>) None) = Fin 0
   \<and> skip_q (buildFilterQuery
        (emptyRequest\<lparr>page := Some (Fin 4), rows := Some (Fin 9007199254740991)\<rparr>) None)
       = Fin 27021597764222972"
proof -
  have r: "numTimes (numMinusOne (Fin 4)) (Fin 9007199254740991) = Fin 27021597764222972"
    "numTimes (numMinusOne (Fin 2)) (Fin 25) = Fin 25"
    "numTimes (Fin 10) (numMinusOne (Fin 3)) = Fin 20"
    by code_simp+
  show ?thesis
    using r
      pagination_take_skip
        [of "emptyRequest\<lparr>page := Some (Fin 2), rows := Some (Fin 25)\<rparr>" "Fin 2" "Fin 25" None
            NaN 2 25]
      pagination_take_skip
        [of "emptyRequest\<lparr>page := Some (Fin 3)\<rparr>" "Fin 3" "Fin 25" None NaN 3 25]
      pagination_take_skip
        [of "emptyRequest\<lparr>rows := Some (Fin 25)\<rparr>" "Fin 3" "Fin 25" None NaN 3 25]
      pagination_take_skip
        [of "emptyRequest\<lparr>page := Some NaN, rows := Some (Fin 25)\<rparr>" "Fin 3" "Fin 25" None NaN 3 25]
      pagination_take_skip
        [of "emptyRequest\<lparr>page := Some (Fin 4), rows := Some (Fin 9007199254740991)\<rparr>"
            "Fin 4" "Fin 9007199254740991" None NaN 3 25]
    by (simp add: emptyRequest_def del: numTimes.simps numMinusOne.simps)
qed

text \<open>
  C4 as stated fails for rows without page: take stays 10, where rows ?? 10 is 25.
\<close>

theorem take_without_page_counterexample:
  "take_q (buildFilterQuery (emptyRequest\<lparr>rows := Some (Fin 25)\<rparr>) None) = Fin 10
   \<and> rowsOrTen (rows (emptyRequest\<lparr>rows := Some (Fin 25)\<rparr>)) = Fin 25"
  by (simp add: buildFilterQuery_def buildPagination_def emptyRequest_def)

section \<open>The diagnostics of the validator\<close>

lemma relationLoop_find:
  "relationLoop parts rels field i errs =
     (case find (\<lambda>seg. \<not> js_includes rels seg) (drop i (butlast parts)) of
        None \<Rightarrow> errs
      | Some seg \<Rightarrow> errs @ [relationMessage seg field])"
proof (induction parts rels field i errs rule: relationLoop.induct)
  case (1 parts rels field i errs)
  show ?case
  proof (cases "i < length parts - 1")
    case True
    then have d: "drop i (butlast parts) = parts ! i # drop (Suc i) (butlast parts)"
      by (simp add: Cons_nth_drop_Suc [symmetric] nth_butlast)
    show ?thesis
    proof (cases "js_includes rels (parts ! i)")
      case True
      with \<open>i < length parts - 1\<close> 1 d show ?thesis
        by (subst relationLoop.simps) simp
    next
      case False
      with \<open>i < length parts - 1\<close> d show ?thesis
        by (subst relationLoop.simps) (simp add: relationMessage_def)
    qed
  next
    case False
    then show ?thesis
      by (subst relationLoop.simps) simp
  qed
qed

lemma validateMultiLevelRelation_errors:
  "validateMultiLevelRelation field spec errs = errs @ relationErrors spec field"
  by (simp add: validateMultiLevelRelation_def relationErrors_def relationLoop_find segments_def
      split: option.splits)

lemma relationErrors_no_dot: "\<not> includesDot field \<Longrightarrow> relationErrors spec field = []"
  by (simp add: relationErrors_def segments_no_dot split: option.splits)

lemma filterEntry_appends:
  "filterEntry spec kv (errs, warns) = (errs @ filterErrors spec kv, warns @ filterWarnings spec kv)"
  by (cases kv)
     (simp add: filterErrors_def filterWarnings_def validateMultiLevelRelation_errors
      relationErrors_no_dot forbiddenMessage_def notListedMessage_def)

lemma validateFilters_appends:
  "validateFilters fs spec (errs, warns) =
     (errs @ concat (map (filterErrors spec) fs), warns @ concat (map (filterWarnings spec) fs))"
  unfolding validateFilters_def
  by (induction fs arbitrary: errs warns) (simp_all add: filterEntry_appends)

lemma searchFilterEntry_appends:
  "searchFilterEntry spec kv (errs, warns) =
     (errs @ searchErrors spec kv, warns @ searchWarnings spec kv)"
  by (cases kv)
     (simp add: searchErrors_def searchWarnings_def validateMultiLevelRelation_errors
      relationErrors_no_dot searchNotListedMessage_def)

lemma validateSearchFilters_appends:
  "validateSearchFilters sfs spec (errs, warns) =
     (errs @ concat (map (searchErrors spec) sfs), warns @ concat (map (searchWarnings spec) sfs))"
  unfolding validateSearchFilters_def
  by (induction sfs arbitrary: errs warns) (simp_all add: searchFilterEntry_appends)

subsection \<open>The date pattern\<close>

lemma digitsN_Some:
  "(digitsN n s = Some rest) = (\<exists>ds. s = ds @ rest \<and> length ds = n \<and> list_all isDigit ds)"
proof (induction n arbitrary: s)
  case 0
  then show ?case by auto
next
  case (Suc n)
  show ?case
  proof (cases s)
    case Nil
    then show ?thesis by auto
  next
    case (Cons c cs)
    show ?thesis
    proof
      assume "digitsN (Suc n) s = Some rest"
      with Cons have c: "isDigit c" and r: "digitsN n cs = Some rest"
        by (auto split: if_splits)
      from r Suc.IH obtain ds where "cs = ds @ rest" "length ds = n" "list_all isDigit ds"
        by blast
      with c Cons have "s = (c # ds) @ rest \<and> length (c # ds) = Suc n \<and> list_all isDigit (c # ds)"
        by simp
      then show "\<exists>ds. s = ds @ rest \<and> length ds = Suc n \<and> list_all isDigit ds"
        by blast
    next
      assume "\<exists>ds. s = ds @ rest \<and> length ds = Suc n \<and> list_all isDigit ds"
      then obtain ds where ds: "s = ds @ rest" "length ds = Suc n" "list_all isDigit ds"
        by blast
      then obtain d ds' where d: "ds = d # ds'" "length ds' = n"
        by (cases ds) auto
      with ds Cons have "c = d" "cs = ds' @ rest" "isDigit c" "list_all isDigit ds'"
        by auto
      with d Suc.IH[of cs] Cons show "digitsN (Suc n) s = Some rest"
        by auto
    qed
  qed
qed

lemma literal_Some: "(literal c s = Some rest) = (s = c # rest)"
  by (cases s) auto

lemma Z_not_digit: "\<not> isDigit (CHR ''Z'')" and dot_not_digit: "\<not> isDigit (CHR ''.'')"
  by (simp_all add: isDigit_def)

lemma fractionZ_iff:
  "fractionZ rest =
     (\<exists>frac. rest = frac @ ''Z''
        \<and> (frac = [] \<or> (\<exists>ds. frac = CHR ''.'' # ds \<and> ds \<noteq> [] \<and> list_all isDigit ds)))"
proof (cases rest)
  case Nil
  then show ?thesis by simp
next
  case (Cons c cs)
  show ?thesis
  proof
    assume f: "fractionZ rest"
    show "\<exists>frac. rest = frac @ ''Z''
        \<and> (frac = [] \<or> (\<exists>ds. frac = CHR ''.'' # ds \<and> ds \<noteq> [] \<and> list_all isDigit ds))"
    proof (cases "c = CHR ''Z''")
      case True
      with f Cons show ?thesis by simp
    next
      case False
      with f Cons have dot: "c = CHR ''.''" and ne: "takeWhile isDigit cs \<noteq> []"
        and z: "dropWhile isDigit cs = ''Z''"
        by (auto simp: Let_def split: if_splits)
      have "cs = takeWhile isDigit cs @ ''Z''"
        using takeWhile_dropWhile_id[of isDigit cs] z by simp
      moreover have "list_all isDigit (takeWhile isDigit cs)"
        by (simp add: list_all_iff) (meson set_takeWhileD)
      ultimately have "rest = (CHR ''.'' # takeWhile isDigit cs) @ ''Z''
          \<and> takeWhile isDigit cs \<noteq> [] \<and> list_all isDigit (takeWhile isDigit cs)"
        using Cons dot ne by simp
      then show ?thesis by blast
    qed
  next
    assume "\<exists>frac. rest = frac @ ''Z''
        \<and> (frac = [] \<or> (\<exists>ds. frac = CHR ''.'' # ds \<and> ds \<noteq> [] \<and> list_all isDigit ds))"
    then obtain frac where r: "rest = frac @ ''Z''"
      and fr: "frac = [] \<or> (\<exists>ds. frac = CHR ''.'' # ds \<and> ds \<noteq> [] \<and> list_all isDigit ds)"
      by blast
    from fr show "fractionZ rest"
    proof
      assume "frac = []"
      with r show ?thesis by simp
    next
      assume "\<exists>ds. frac = CHR ''.'' # ds \<and> ds \<noteq> [] \<and> list_all isDigit ds"
      then obtain ds where ds: "frac = CHR ''.'' # ds" "ds \<noteq> []" "list_all isDigit ds"
        by blast
      have tw: "takeWhile isDigit (ds @ ''Z'') = ds"
        using ds(3) Z_not_digit by (simp add: list_all_iff takeWhile_append2)
      have dw: "dropWhile isDigit (ds @ ''Z'') = ''Z''"
        using ds(3) Z_not_digit by (simp add: list_all_iff dropWhile_append2)
      from r ds tw dw show ?thesis by (simp add: Let_def)
    qed
  qed
qed


lemma matchesDateRegex_iff: "matchesDateRegex s = isoUtcPattern s"
proof
  assume "matchesDateRegex s"
  then obtain rest where fz: "fractionZ rest"
    and ch: "Option.bind (Option.bind (Option.bind (Option.bind (Option.bind (Option.bind
           (Option.bind (Option.bind (Option.bind (Option.bind (digitsN 4 s)
             (literal (CHR ''-''))) (digitsN 2)) (literal (CHR ''-''))) (digitsN 2))
             (literal (CHR ''T''))) (digitsN 2)) (literal (CHR '':''))) (digitsN 2))
             (literal (CHR '':''))) (digitsN 2) = Some rest"
    by (auto simp: matchesDateRegex_def split: option.splits)
  from ch obtain Y M D h m sec where
    s: "s = Y @ CHR ''-'' # M @ CHR ''-'' # D @ CHR ''T'' # h @ CHR '':'' # m @ CHR '':'' # sec @ rest"
    and len: "length Y = 4" "length M = 2" "length D = 2" "length h = 2" "length m = 2"
      "length sec = 2"
    and dig: "list_all isDigit Y" "list_all isDigit M" "list_all isDigit D" "list_all isDigit h"
      "list_all isDigit m" "list_all isDigit sec"
    by (auto simp: bind_eq_Some_conv digitsN_Some literal_Some)
  from fz obtain frac where fr: "rest = frac @ ''Z''"
    "frac = [] \<or> (\<exists>ds. frac = CHR ''.'' # ds \<and> ds \<noteq> [] \<and> list_all isDigit ds)"
    by (auto simp: fractionZ_iff)
  show "isoUtcPattern s"
    unfolding isoUtcPattern_def
    apply (rule exI[of _ Y], rule exI[of _ M], rule exI[of _ D], rule exI[of _ h],
        rule exI[of _ m], rule exI[of _ sec], rule exI[of _ frac])
    using s len dig fr by auto
next
  assume "isoUtcPattern s"
  then obtain Y M D h m sec frac where
    s: "s = Y @ ''-'' @ M @ ''-'' @ D @ ''T'' @ h @ '':'' @ m @ '':'' @ sec @ frac @ ''Z''"
    and len: "length Y = 4" "length M = 2" "length D = 2" "length h = 2" "length m = 2"
      "length sec = 2"
    and dig: "list_all isDigit (Y @ M @ D @ h @ m @ sec)"
    and fr: "frac = [] \<or> (\<exists>ds. frac = CHR ''.'' # ds \<and> ds \<noteq> [] \<and> list_all isDigit ds)"
    unfolding isoUtcPattern_def by blast
  have d1: "digitsN 4 s = Some (''-'' @ M @ ''-'' @ D @ ''T'' @ h @ '':'' @ m @ '':'' @ sec @ frac @ ''Z'')"
    using s len dig by (subst digitsN_Some) (rule exI[of _ Y], simp)
  have d2: "digitsN 2 (M @ ''-'' @ D @ ''T'' @ h @ '':'' @ m @ '':'' @ sec @ frac @ ''Z'')
      = Some (''-'' @ D @ ''T'' @ h @ '':'' @ m @ '':'' @ sec @ frac @ ''Z'')"
    using len dig by (subst digitsN_Some) (rule exI[of _ M], simp)
  have d3: "digitsN 2 (D @ ''T'' @ h @ '':'' @ m @ '':'' @ sec @ frac @ ''Z'')
      = Some (''T'' @ h @ '':'' @ m @ '':'' @ sec @ frac @ ''Z'')"
    using len dig by (subst digitsN_Some) (rule exI[of _ D], simp)
  have d4: "digitsN 2 (h @ '':'' @ m @ '':'' @ sec @ frac @ ''Z'')
      = Some ('':'' @ m @ '':'' @ sec @ frac @ ''Z'')"
    using len dig by (subst digitsN_Some) (rule exI[of _ h], simp)
  have d5: "digitsN 2 (m @ '':'' @ sec @ frac @ ''Z'') = Some ('':'' @ sec @ frac @ ''Z'')"
    using len dig by (subst digitsN_Some) (rule exI[of _ m], simp)
  have d6: "digitsN 2 (sec @ frac @ ''Z'') = Some (frac @ ''Z'')"
    using len dig by (subst digitsN_Some) (rule exI[of _ sec], simp)
  have fz: "fractionZ (frac @ ''Z'')"
    using fr by (subst fractionZ_iff) blast
  show "matchesDateRegex s"
    using d1 d2 d3 d4 d5 d6 fz by (simp add: matchesDateRegex_def)
qed

lemma isValidDate_both:
  "(isValidDate x \<and> isValidDate y) =
     (\<exists>s e. x = JStr s \<and> y = JStr e \<and> matchesDateRegex s \<and> matchesDateRegex e)"
  by (cases x; cases y) simp_all

lemma dateAfter_iff: "dateAfter x y = (\<exists>a b. x = Some a \<and> y = Some b \<and> b < a)"
  by (cases x; cases y) auto

lemma startAfterEnd_code:
  "startAfterEnd parse r =
     (isValidDate (start_r r) \<and> isValidDate (end_r r)
      \<and> dateAfter (parse (templateString (start_r r))) (parse (templateString (end_r r))))"
  by (cases "start_r r"; cases "end_r r")
     (auto simp: startAfterEnd_def dateAfter_iff matchesDateRegex_iff)

subsection \<open>The loops of the validator\<close>

lemma rangedFilterEntry_appends:
  "rangedFilterEntry parse spec r (errs, warns) =
     (errs @ rangeErrors parse spec r, warns @ rangeWarnings spec r)"
  by (simp add: rangeErrors_def rangeWarnings_def startAfterEnd_code
      validateMultiLevelRelation_errors relationErrors_no_dot rangeNotListedMessage_def
      startAfterEndMessage_def Let_def)

lemma validateRangedFilters_appends:
  "validateRangedFilters parse rs spec (errs, warns) =
     (errs @ concat (map (rangeErrors parse spec) rs), warns @ concat (map (rangeWarnings spec) rs))"
  unfolding validateRangedFilters_def
  by (induction rs arbitrary: errs warns)
     (simp_all add: rangedFilterEntry_appends del: rangedFilterEntry.simps)

lemma validateOrderKey_appends:
  "validateOrderKey k spec (errs, warns) =
     (errs @ relationErrors spec k,
      warns @ (if notAllowed spec k then [orderNotListedMessage k] else []))"
  by (simp add: validateOrderKey_def validateMultiLevelRelation_errors relationErrors_no_dot
      orderNotListedMessage_def)

lemma validatePagination_appends:
  "validatePagination numberText q spec errs = errs @ paginationErrors numberText q spec"
  by (auto simp: validatePagination_def paginationErrors_def Let_def split: option.splits)

lemma validateQuery_Some:
  "validateQuery parse numberText q (Some spec) =
     \<lparr>isValid = (queryErrors parse numberText q spec = []),
      errors = queryErrors parse numberText q spec,
      warnings = queryWarnings q spec\<rparr>"
  by (cases "filters q"; cases "searchFilters q"; cases "rangedFilters q"; cases "orderKey q")
     (simp_all add: validateQuery_def Let_def queryErrors_def queryWarnings_def
      validateFilters_appends validateSearchFilters_appends validateRangedFilters_appends
      validateOrderKey_appends validatePagination_appends)

text \<open>
  C5. Without a specification the validator returns {isValid: true, errors: [],
  warnings: []}, whatever the request holds.
\<close>

theorem validate_without_specification:
  "validateQuery parseDate numberText q None = \<lparr>isValid = True, errors = [], warnings = []\<rparr>"
  by (simp add: validateQuery_def)

theorem validate_without_specification_witness:
  "validateQuery isoTimeValue numberToString
     (emptyRequest\<lparr>filters := Some [(''secret'', JNum 1)],
        rangedFilters := Some [\<lparr>key_r = ''at'', start_r = JStr ''2023-12-31T00:00:00Z'',
                                end_r = JStr ''2023-01-01T00:00:00Z''\<rparr>],
        page := Some (Fin (- 3)), rows := Some (Fin 0)\<rparr>) None
     = \<lparr>isValid = True, errors = [], warnings = []\<rparr>"
  using validate_without_specification
      [of isoTimeValue numberToString
          "emptyRequest\<lparr>filters := Some [(''secret'', JNum 1)],
             rangedFilters := Some [\<lparr>key_r = ''at'', start_r = JStr ''2023-12-31T00:00:00Z'',
                                     end_r = JStr ''2023-01-01T00:00:00Z''\<rparr>],
             page := Some (Fin (- 3)), rows := Some (Fin 0)\<rparr>"]
  by simp

subsection \<open>Telling the messages apart\<close>

lemma quoted_inj: "(quoted a = quoted b) = (a = b)"
  by (simp add: quoted_def)

lemma forbiddenMessage_inj: "(forbiddenMessage a = forbiddenMessage b) = (a = b)"
  by (simp add: forbiddenMessage_def quoted_inj)

lemma notListedMessage_inj: "(notListedMessage a = notListedMessage b) = (a = b)"
  by (simp add: notListedMessage_def quoted_inj)

lemma searchNotListedMessage_inj: "(searchNotListedMessage a = searchNotListedMessage b) = (a = b)"
  by (simp add: searchNotListedMessage_def quoted_inj)

lemma length_relationErrors: "length (relationErrors spec path) \<le> 1"
  by (simp add: relationErrors_def split: option.splits)

lemma relationErrors_first_letters: "m \<in> set (relationErrors spec path) \<Longrightarrow> take 2 m = ''Re''"
  by (auto simp: relationErrors_def relationMessage_def split: option.splits)

lemma paginationErrors_first_letters:
  "m \<in> set (paginationErrors numberText q spec) \<Longrightarrow> take 2 m = ''Pa'' \<or> take 2 m = ''Ro''"
  by (auto simp: paginationErrors_def split: option.splits if_splits)

lemma rangeErrors_first_letters:
  "m \<in> set (rangeErrors parse spec r) \<Longrightarrow> take 2 m = ''Re'' \<or> take 2 m = ''Ra''"
  by (auto simp: rangeErrors_def startAfterEndMessage_def dest: relationErrors_first_letters
      split: if_splits)

lemma searchErrors_first_letters: "m \<in> set (searchErrors spec kv) \<Longrightarrow> take 2 m = ''Re''"
  by (auto simp: searchErrors_def dest: relationErrors_first_letters split: if_splits)

lemma forbiddenMessage_first_letters: "take 2 (forbiddenMessage f) = ''Fi''"
  by (simp add: forbiddenMessage_def)

lemma forbiddenMessage_in_filterErrors:
  "(forbiddenMessage f \<in> set (filterErrors spec kv)) =
     (\<not> isNullish (snd kv) \<and> notAllowed spec (fst kv) \<and> isForbidden spec (fst kv) \<and> fst kv = f)"
  using relationErrors_first_letters[of "forbiddenMessage f" spec "fst kv"]
  by (auto simp: filterErrors_def forbiddenMessage_inj forbiddenMessage_first_letters)

lemma notListedMessage_in_filterWarnings:
  "(notListedMessage f \<in> set (filterWarnings spec kv)) =
     (\<not> isNullish (snd kv) \<and> notAllowed spec (fst kv) \<and> \<not> isForbidden spec (fst kv) \<and> fst kv = f)"
  by (auto simp: filterWarnings_def notListedMessage_inj)

lemma notListedMessage_not_search: "notListedMessage f \<notin> set (searchWarnings spec kv)"
  by (simp add: searchWarnings_def notListedMessage_def searchNotListedMessage_def)

lemma notListedMessage_not_range: "notListedMessage f \<notin> set (rangeWarnings spec r)"
  by (simp add: rangeWarnings_def notListedMessage_def rangeNotListedMessage_def)

lemma notListedMessage_not_order: "notListedMessage f \<noteq> orderNotListedMessage k"
  by (simp add: notListedMessage_def orderNotListedMessage_def)

lemma searchNotListedMessage_in_searchWarnings:
  "(searchNotListedMessage f \<in> set (searchWarnings spec kv)) =
     (\<not> isNullish (snd kv) \<and> notAllowed spec (fst kv) \<and> fst kv = f)"
  by (auto simp: searchWarnings_def searchNotListedMessage_inj)

lemma forbiddenMessage_only_from_filters:
  "(forbiddenMessage f \<in> set (queryErrors parse numberText q spec)) =
     (\<exists>fs kv. filters q = Some fs \<and> kv \<in> set fs \<and> forbiddenMessage f \<in> set (filterErrors spec kv))"
proof -
  have 1: "forbiddenMessage f \<notin> set (searchErrors spec kv)" for kv
    using searchErrors_first_letters[of "forbiddenMessage f" spec kv]
    by (auto simp: forbiddenMessage_first_letters)
  have 2: "forbiddenMessage f \<notin> set (rangeErrors parse spec r)" for r
    using rangeErrors_first_letters[of "forbiddenMessage f" parse spec r]
    by (auto simp: forbiddenMessage_first_letters)
  have 3: "forbiddenMessage f \<notin> set (relationErrors spec k)" for k
    using relationErrors_first_letters[of "forbiddenMessage f" spec k]
    by (auto simp: forbiddenMessage_first_letters)
  have 4: "forbiddenMessage f \<notin> set (paginationErrors numberText q spec)"
    using paginationErrors_first_letters[of "forbiddenMessage f" numberText q spec]
    by (auto simp: forbiddenMessage_first_letters)
  show ?thesis
    by (cases "filters q"; cases "searchFilters q"; cases "rangedFilters q"; cases "orderKey q")
       (auto simp: queryErrors_def 1 2 3 4)
qed

lemma notListedMessage_only_from_filters:
  "(notListedMessage f \<in> set (queryWarnings q spec)) =
     (\<exists>fs kv. filters q = Some fs \<and> kv \<in> set fs \<and> notListedMessage f \<in> set (filterWarnings spec kv))"
  by (cases "filters q"; cases "searchFilters q"; cases "rangedFilters q"; cases "orderKey q")
     (auto simp: queryWarnings_def notListedMessage_not_search notListedMessage_not_range
      notListedMessage_not_order)

lemma searchWarning_in_queryWarnings:
  "searchFilters q = Some sfs \<Longrightarrow> kv \<in> set sfs \<Longrightarrow> m \<in> set (searchWarnings spec kv)
     \<Longrightarrow> m \<in> set (queryWarnings q spec)"
  by (auto simp: queryWarnings_def)

lemma relationErrors_form:
  "m \<in> set (relationErrors spec path) \<Longrightarrow> \<exists>seg. m = relationMessage seg path"
  by (auto simp: relationErrors_def split: option.splits)

text \<open>
  C6, as amended. With allowedFields configured, a field path used in filters (with a
  value) that is absent from allowedFields and present in forbiddenFields yields the
  error "Field '<path>' is forbidden", and no warning that the field is not listed; the
  request is then invalid. The same path used in searchFilters yields the warning
  "Search field '<path>' is not in allowed fields list" and never a forbidden-field
  error: where the path is not used in filters, the validator reports no
  forbidden-field error for it. Besides the warning, a search field yields the relation
  error of its path, at most one, and nothing else; it yields only the warning when the
  path has no dot or allowedRelations is not configured.
\<close>

theorem forbidden_field_only_in_filters:
  "allowedFields spec = Some af \<and> field \<notin> set af
   \<and> forbiddenFields spec = Some ff \<and> field \<in> set ff \<longrightarrow>
     (\<not> isNullish v \<longrightarrow>
        filterEntry spec (field, v) (errs, warns)
          = (errs @ [forbiddenMessage field] @ relationErrors spec field, warns)
        \<and> searchFilterEntry spec (field, v) (errs, warns)
          = (errs @ relationErrors spec field, warns @ [searchNotListedMessage field]))
     \<and> (filters q = Some fs \<and> (field, v) \<in> set fs \<and> \<not> isNullish v \<longrightarrow>
          forbiddenMessage field \<in> set (errors (validateQuery parseDate numberText q (Some spec)))
          \<and> notListedMessage field \<notin> set (warnings (validateQuery parseDate numberText q (Some spec)))
          \<and> \<not> isValid (validateQuery parseDate numberText q (Some spec)))
     \<and> (searchFilters q = Some sfs \<and> (field, v) \<in> set sfs \<and> \<not> isNullish v
          \<and> (\<forall>fs'. filters q = Some fs' \<longrightarrow> field \<notin> fst ` set (nonNull fs')) \<longrightarrow>
          searchNotListedMessage field \<in> set (warnings (validateQuery parseDate numberText q (Some spec)))
          \<and> forbiddenMessage field \<notin> set (errors (validateQuery parseDate numberText q (Some spec))))
     \<and> forbiddenMessage field \<notin> set (fst (validateSearchFilters sfs spec ([], [])))
     \<and> (\<not> isNullish v \<longrightarrow>
          validateQuery parseDate numberText (emptyRequest\<lparr>searchFilters := Some [(field, v)]\<rparr>)
            (Some spec)
            = \<lparr>isValid = (relationErrors spec field = []),
               errors = relationErrors spec field,
               warnings = [searchNotListedMessage field]\<rparr>)
     \<and> length (relationErrors spec field) \<le> 1
     \<and> (\<forall>m \<in> set (relationErrors spec field). \<exists>seg. m = relationMessage seg field)
     \<and> (\<not> includesDot field \<or> allowedRelations spec = None \<longrightarrow>
          relationErrors spec field = []
          \<and> (\<not> isNullish v \<longrightarrow>
                searchFilterEntry spec (field, v) (errs, warns)
                  = (errs, warns @ [searchNotListedMessage field])))"
proof (intro impI)
  assume a: "allowedFields spec = Some af \<and> field \<notin> set af
    \<and> forbiddenFields spec = Some ff \<and> field \<in> set ff"
  then have na: "notAllowed spec field" and fb: "isForbidden spec field"
    by (simp_all add: notAllowed_def isForbidden_def js_includes_def)
  have entry: "\<not> isNullish v \<longrightarrow>
        filterEntry spec (field, v) (errs, warns)
          = (errs @ [forbiddenMessage field] @ relationErrors spec field, warns)
        \<and> searchFilterEntry spec (field, v) (errs, warns)
          = (errs @ relationErrors spec field, warns @ [searchNotListedMessage field])"
    using na fb
    by (simp add: filterEntry_appends searchFilterEntry_appends filterErrors_def
        filterWarnings_def searchErrors_def searchWarnings_def
        del: filterEntry.simps searchFilterEntry.simps)
  have used: "filters q = Some fs \<and> (field, v) \<in> set fs \<and> \<not> isNullish v \<longrightarrow>
          forbiddenMessage field \<in> set (errors (validateQuery parseDate numberText q (Some spec)))
          \<and> notListedMessage field \<notin> set (warnings (validateQuery parseDate numberText q (Some spec)))
          \<and> \<not> isValid (validateQuery parseDate numberText q (Some spec))"
  proof (intro impI)
    assume u: "filters q = Some fs \<and> (field, v) \<in> set fs \<and> \<not> isNullish v"
    then have "forbiddenMessage field \<in> set (filterErrors spec (field, v))"
      using na fb by (simp add: forbiddenMessage_in_filterErrors)
    with u have e: "forbiddenMessage field \<in> set (queryErrors parseDate numberText q spec)"
      by (subst forbiddenMessage_only_from_filters) blast
    then have "queryErrors parseDate numberText q spec \<noteq> []"
      by auto
    moreover have "notListedMessage field \<notin> set (queryWarnings q spec)"
      using fb by (simp add: notListedMessage_only_from_filters notListedMessage_in_filterWarnings)
    ultimately show "forbiddenMessage field \<in> set (errors (validateQuery parseDate numberText q (Some spec)))
          \<and> notListedMessage field \<notin> set (warnings (validateQuery parseDate numberText q (Some spec)))
          \<and> \<not> isValid (validateQuery parseDate numberText q (Some spec))"
      using e by (simp add: validateQuery_Some)
  qed
  have search: "searchFilters q = Some sfs \<and> (field, v) \<in> set sfs \<and> \<not> isNullish v
          \<and> (\<forall>fs'. filters q = Some fs' \<longrightarrow> field \<notin> fst ` set (nonNull fs')) \<longrightarrow>
          searchNotListedMessage field \<in> set (warnings (validateQuery parseDate numberText q (Some spec)))
          \<and> forbiddenMessage field \<notin> set (errors (validateQuery parseDate numberText q (Some spec)))"
  proof (intro impI)
    assume s: "searchFilters q = Some sfs \<and> (field, v) \<in> set sfs \<and> \<not> isNullish v
          \<and> (\<forall>fs'. filters q = Some fs' \<longrightarrow> field \<notin> fst ` set (nonNull fs'))"
    then have "searchNotListedMessage field \<in> set (searchWarnings spec (field, v))"
      using na by (simp add: searchNotListedMessage_in_searchWarnings)
    with s have w: "searchNotListedMessage field \<in> set (queryWarnings q spec)"
      using searchWarning_in_queryWarnings[of q sfs "(field, v)"] by blast
    have "forbiddenMessage field \<notin> set (queryErrors parseDate numberText q spec)"
    proof
      assume "forbiddenMessage field \<in> set (queryErrors parseDate numberText q spec)"
      then obtain fs' kv where k: "filters q = Some fs'" "kv \<in> set fs'"
        "\<not> isNullish (snd kv)" "fst kv = field"
        by (auto simp: forbiddenMessage_only_from_filters forbiddenMessage_in_filterErrors)
      then have "kv \<in> set (nonNull fs')"
        by (simp add: nonNull_def)
      with k have "field \<in> fst ` set (nonNull fs')"
        by force
      with s k show False by blast
    qed
    with w show "searchNotListedMessage field \<in> set (warnings (validateQuery parseDate numberText q (Some spec)))
          \<and> forbiddenMessage field \<notin> set (errors (validateQuery parseDate numberText q (Some spec)))"
      by (simp add: validateQuery_Some)
  qed
  have never: "forbiddenMessage field \<notin> set (fst (validateSearchFilters sfs spec ([], [])))"
    using searchErrors_first_letters[of "forbiddenMessage field" spec]
    by (auto simp: validateSearchFilters_appends forbiddenMessage_first_letters)
  have single: "\<not> isNullish v \<longrightarrow>
          validateQuery parseDate numberText (emptyRequest\<lparr>searchFilters := Some [(field, v)]\<rparr>)
            (Some spec)
            = \<lparr>isValid = (relationErrors spec field = []),
               errors = relationErrors spec field,
               warnings = [searchNotListedMessage field]\<rparr>"
    using na
    by (simp add: validateQuery_Some queryErrors_def queryWarnings_def emptyRequest_def
        searchErrors_def searchWarnings_def paginationErrors_def)
  have form: "\<forall>m \<in> set (relationErrors spec field). \<exists>seg. m = relationMessage seg field"
    by (blast dest: relationErrors_form)
  have plain: "\<not> includesDot field \<or> allowedRelations spec = None \<longrightarrow>
          relationErrors spec field = []
          \<and> (\<not> isNullish v \<longrightarrow>
                searchFilterEntry spec (field, v) (errs, warns)
                  = (errs, warns @ [searchNotListedMessage field]))"
  proof (intro impI)
    assume "\<not> includesDot field \<or> allowedRelations spec = None"
    then have "relationErrors spec field = []"
    proof
      assume "\<not> includesDot field"
      then show ?thesis by (rule relationErrors_no_dot)
    next
      assume "allowedRelations spec = None"
      then show ?thesis by (simp add: relationErrors_def)
    qed
    with entry show "relationErrors spec field = []
          \<and> (\<not> isNullish v \<longrightarrow>
                searchFilterEntry spec (field, v) (errs, warns)
                  = (errs, warns @ [searchNotListedMessage field]))"
      by simp
  qed
  from entry used search never single form plain length_relationErrors[of spec field]
  show "(\<not> isNullish v \<longrightarrow>
        filterEntry spec (field, v) (errs, warns)
          = (errs @ [forbiddenMessage field] @ relationErrors spec field, warns)
        \<and> searchFilterEntry spec (field, v) (errs, warns)
          = (errs @ relationErrors spec field, warns @ [searchNotListedMessage field]))
     \<and> (filters q = Some fs \<and> (field, v) \<in> set fs \<and> \<not> isNullish v \<longrightarrow>
          forbiddenMessage field \<in> set (errors (validateQuery parseDate numberText q (Some spec)))
          \<and> notListedMessage field \<notin> set (warnings (validateQuery parseDate numberText q (Some spec)))
          \<and> \<not> isValid (validateQuery parseDate numberText q (Some spec)))
     \<and> (searchFilters q = Some sfs \<and> (field, v) \<in> set sfs \<and> \<not> isNullish v
          \<and> (\<forall>fs'. filters q = Some fs' \<longrightarrow> field \<notin> fst ` set (nonNull fs')) \<longrightarrow>
          searchNotListedMessage field \<in> set (warnings (validateQuery parseDate numberText q (Some spec)))
          \<and> forbiddenMessage field \<notin> set (errors (validateQuery parseDate numberText q (Some spec))))
     \<and> forbiddenMessage field \<notin> set (fst (validateSearchFilters sfs spec ([], [])))
     \<and> (\<not> isNullish v \<longrightarrow>
          validateQuery parseDate numberText (emptyRequest\<lparr>searchFilters := Some [(field, v)]\<rparr>)
            (Some spec)
            = \<lparr>isValid = (relationErrors spec field = []),
               errors = relationErrors spec field,
               warnings = [searchNotListedMessage field]\<rparr>)
     \<and> length (relationErrors spec field) \<le> 1
     \<and> (\<forall>m \<in> set (relationErrors spec field). \<exists>seg. m = relationMessage seg field)
     \<and> (\<not> includesDot field \<or> allowedRelations spec = None \<longrightarrow>
          relationErrors spec field = []
          \<and> (\<not> isNullish v \<longrightarrow>
                searchFilterEntry spec (field, v) (errs, warns)
                  = (errs, warns @ [searchNotListedMessage field])))"
    by blast
qed

theorem forbidden_field_only_in_filters_witness:
  "forbiddenMessage ''secret'' = ''Field 'secret' is forbidden''
   \<and> searchNotListedMessage ''secret'' = ''Search field 'secret' is not in allowed fields list''
   \<and> forbiddenMessage ''secret''
       \<in> set (errors (validateQuery isoTimeValue numberToString
             (emptyRequest\<lparr>filters := Some [(''secret'', JNum 1)]\<rparr>)
             (Some (emptySpecification\<lparr>allowedFields := Some [''title''],
                      forbiddenFields := Some [''secret'']\<rparr>))))
   \<and> \<not> isValid (validateQuery isoTimeValue numberToString
             (emptyRequest\<lparr>filters := Some [(''secret'', JNum 1)]\<rparr>)
             (Some (emptySpecification\<lparr>allowedFields := Some [''title''],
                      forbiddenFields := Some [''secret'']\<rparr>)))
   \<and> searchNotListedMessage ''secret''
       \<in> set (warnings (validateQuery isoTimeValue numberToString
             (emptyRequest\<lparr>searchFilters := Some [(''secret'', JStr ''x'')]\<rparr>)
             (Some (emptySpecification\<lparr>allowedFields := Some [''title''],
                      forbiddenFields := Some [''secret'']\<rparr>))))
   \<and> forbiddenMessage ''secret''
       \<notin> set (errors (validateQuery isoTimeValue numberToString
             (emptyRequest\<lparr>searchFilters := Some [(''secret'', JStr ''x'')]\<rparr>)
             (Some (emptySpecification\<lparr>allowedFields := Some [''title''],
                      forbiddenFields := Some [''secret'']\<rparr>))))
   \<and> validateQuery isoTimeValue numberToString
        (emptyRequest\<lparr>searchFilters := Some [(''secret'', JStr ''x'')]\<rparr>)
        (Some (emptySpecification\<lparr>allowedFields := Some [''title''],
                 forbiddenFields := Some [''secret'']\<rparr>))
       = \<lparr>isValid = True, errors = [],
          warnings = [searchNotListedMessage ''secret'']\<rparr>"
proof -
  have m: "forbiddenMessage ''secret'' = ''Field 'secret' is forbidden''
    \<and> searchNotListedMessage ''secret'' = ''Search field 'secret' is not in allowed fields list''"
    by (simp add: forbiddenMessage_def searchNotListedMessage_def quoted_def)
  show ?thesis
    using m
      forbidden_field_only_in_filters
        [of "emptySpecification\<lparr>allowedFields := Some [''title''],
               forbiddenFields := Some [''secret'']\<rparr>"
            "[''title'']" "''secret''" "[''secret'']" "JNum 1" "[]" "[]"
            "emptyRequest\<lparr>filters := Some [(''secret'', JNum 1)]\<rparr>"
            "[(''secret'', JNum 1)]" isoTimeValue numberToString "[]"]
      forbidden_field_only_in_filters
        [of "emptySpecification\<lparr>allowedFields := Some [''title''],
               forbiddenFields := Some [''secret'']\<rparr>"
            "[''title'']" "''secret''" "[''secret'']" "JStr ''x''" "[]" "[]"
            "emptyRequest\<lparr>searchFilters := Some [(''secret'', JStr ''x'')]\<rparr>"
            "[]" isoTimeValue numberToString "[(''secret'', JStr ''x'')]"]
    by (simp add: emptySpecification_def emptyRequest_def includesDot_def)
qed

text \<open>
  C6 as stated fails for a dotted search path whose relation is not allowed: besides
  the warning, the search field yields a relation error, and the request is invalid.
\<close>

theorem search_field_relation_error_counterexample:
  "validateQuery isoTimeValue numberToString
     (emptyRequest\<lparr>searchFilters := Some [(''secret.x'', JStr ''q'')]\<rparr>)
     (Some (emptySpecification\<lparr>allowedFields := Some [''title''],
              forbiddenFields := Some [''secret.x''], allowedRelations := Some [''a'']\<rparr>))
     = \<lparr>isValid = False,
        errors = [relationMessage ''secret'' ''secret.x''],
        warnings = [searchNotListedMessage ''secret.x'']\<rparr>
   \<and> relationMessage ''secret'' ''secret.x''
       = ''Relation 'secret' in field 'secret.x' is not allowed''"
  by (simp add: validateQuery_def validateSearchFilters_def validatePagination_def
      validateMultiLevelRelation_def relationLoop.simps notAllowed_def js_includes_def
      includesDot_def emptyRequest_def emptySpecification_def relationMessage_def
      searchNotListedMessage_def quoted_def Let_def)


text \<open>
  C7. With allowedRelations configured, the validator checks the segments of a path
  before the last one from left to right and, on the first that is not in
  allowedRelations, emits the one error "Relation '<segment>' in field '<path>' is not
  allowed" and nothing for the segments after it; with none such, or without
  allowedRelations, it emits nothing. The errors of a filter, a search filter, a ranged
  filter and the order key each hold these relation errors of their path, and the
  validator's errors are those of all entries, stage after stage.
\<close>

theorem relation_first_violation_only:
  "validateMultiLevelRelation field spec errs = errs @ relationErrors spec field
   \<and> length (relationErrors spec field) \<le> 1
   \<and> (allowedRelations spec = None \<longrightarrow> validateMultiLevelRelation field spec errs = errs)
   \<and> (allowedRelations spec = Some rels \<longrightarrow>
        (case find (\<lambda>seg. seg \<notin> set rels) (butlast (segments field)) of
           None \<Rightarrow> validateMultiLevelRelation field spec errs = errs
         | Some seg \<Rightarrow>
             validateMultiLevelRelation field spec errs = errs @ [relationMessage seg field]
             \<and> (\<exists>i < length (butlast (segments field)).
                   butlast (segments field) ! i = seg \<and> seg \<notin> set rels
                   \<and> (\<forall>j < i. butlast (segments field) ! j \<in> set rels))))
   \<and> (\<not> isNullish v \<longrightarrow>
        fst (filterEntry spec (field, v) (errs, warns))
          = errs @ (if notAllowed spec field \<and> isForbidden spec field
                    then [forbiddenMessage field] else [])
                 @ relationErrors spec field
        \<and> fst (searchFilterEntry spec (field, v) (errs, warns)) = errs @ relationErrors spec field)
   \<and> fst (rangedFilterEntry parseDate spec r (errs, warns))
        = errs @ relationErrors spec (key_r r)
               @ (if startAfterEnd parseDate r then [startAfterEndMessage r] else [])
   \<and> fst (validateOrderKey k spec (errs, warns)) = errs @ relationErrors spec k
   \<and> errors (validateQuery parseDate numberText q (Some spec)) = queryErrors parseDate numberText q spec"
proof -
  have a: "validateMultiLevelRelation field spec errs = errs @ relationErrors spec field"
    by (rule validateMultiLevelRelation_errors)
  have b: "allowedRelations spec = None \<longrightarrow> validateMultiLevelRelation field spec errs = errs"
    by (simp add: validateMultiLevelRelation_def)
  have c: "allowedRelations spec = Some rels \<longrightarrow>
        (case find (\<lambda>seg. seg \<notin> set rels) (butlast (segments field)) of
           None \<Rightarrow> validateMultiLevelRelation field spec errs = errs
         | Some seg \<Rightarrow>
             validateMultiLevelRelation field spec errs = errs @ [relationMessage seg field]
             \<and> (\<exists>i < length (butlast (segments field)).
                   butlast (segments field) ! i = seg \<and> seg \<notin> set rels
                   \<and> (\<forall>j < i. butlast (segments field) ! j \<in> set rels)))"
  proof (intro impI)
    assume r: "allowedRelations spec = Some rels"
    show "case find (\<lambda>seg. seg \<notin> set rels) (butlast (segments field)) of
           None \<Rightarrow> validateMultiLevelRelation field spec errs = errs
         | Some seg \<Rightarrow>
             validateMultiLevelRelation field spec errs = errs @ [relationMessage seg field]
             \<and> (\<exists>i < length (butlast (segments field)).
                   butlast (segments field) ! i = seg \<and> seg \<notin> set rels
                   \<and> (\<forall>j < i. butlast (segments field) ! j \<in> set rels))"
    proof (cases "find (\<lambda>seg. seg \<notin> set rels) (butlast (segments field))")
      case None
      with r show ?thesis
        by (simp add: a relationErrors_def js_includes_def)
    next
      case (Some seg)
      then have "\<exists>i < length (butlast (segments field)).
                   butlast (segments field) ! i = seg \<and> seg \<notin> set rels
                   \<and> (\<forall>j < i. butlast (segments field) ! j \<in> set rels)"
        by (auto simp: find_Some_iff)
      with r Some show ?thesis
        by (simp add: a relationErrors_def js_includes_def)
    qed
  qed
  have d: "\<not> isNullish v \<longrightarrow>
        fst (filterEntry spec (field, v) (errs, warns))
          = errs @ (if notAllowed spec field \<and> isForbidden spec field
                    then [forbiddenMessage field] else [])
                 @ relationErrors spec field
        \<and> fst (searchFilterEntry spec (field, v) (errs, warns)) = errs @ relationErrors spec field"
    by (simp add: filterEntry_appends searchFilterEntry_appends filterErrors_def searchErrors_def
        del: filterEntry.simps searchFilterEntry.simps)
  have e: "fst (rangedFilterEntry parseDate spec r (errs, warns))
        = errs @ relationErrors spec (key_r r)
               @ (if startAfterEnd parseDate r then [startAfterEndMessage r] else [])"
    by (simp add: rangedFilterEntry_appends rangeErrors_def del: rangedFilterEntry.simps)
  have f: "fst (validateOrderKey k spec (errs, warns)) = errs @ relationErrors spec k"
    by (simp add: validateOrderKey_appends)
  have g: "errors (validateQuery parseDate numberText q (Some spec)) = queryErrors parseDate numberText q spec"
    by (simp add: validateQuery_Some)
  from a b c d e f g length_relationErrors[of spec field] show ?thesis
    by blast
qed

theorem relation_first_violation_only_witness:
  "relationMessage ''b'' ''a.b.c'' = ''Relation 'b' in field 'a.b.c' is not allowed''
   \<and> validateMultiLevelRelation ''a.b.c'' (emptySpecification\<lparr>allowedRelations := Some [''a'']\<rparr>) []
       = [relationMessage ''b'' ''a.b.c'']
   \<and> validateMultiLevelRelation ''a.b.c''
        (emptySpecification\<lparr>allowedRelations := Some [''a'', ''b'']\<rparr>) [] = []
   \<and> validateMultiLevelRelation ''x.y.c'' (emptySpecification\<lparr>allowedRelations := Some [''a'']\<rparr>) []
       = [relationMessage ''x'' ''x.y.c'']
   \<and> fst (validateOrderKey ''a.b.c'' (emptySpecification\<lparr>allowedRelations := Some [''a'']\<rparr>) ([], []))
       = [relationMessage ''b'' ''a.b.c'']"
proof -
  have m: "relationMessage ''b'' ''a.b.c'' = ''Relation 'b' in field 'a.b.c' is not allowed''"
    by (simp add: relationMessage_def quoted_def)
  show ?thesis
    using m
      relation_first_violation_only
        [of "''a.b.c''" "emptySpecification\<lparr>allowedRelations := Some [''a'']\<rparr>" "[]" "[''a'']"
            "JNum 1" "[]" isoTimeValue "\<lparr>key_r = ''a.b.c'', start_r = JNum 1, end_r = JNum 2\<rparr>"
            "''a.b.c''" numberToString emptyRequest]
      relation_first_violation_only
        [of "''a.b.c''" "emptySpecification\<lparr>allowedRelations := Some [''a'', ''b'']\<rparr>" "[]"
            "[''a'', ''b'']"
            "JNum 1" "[]" isoTimeValue "\<lparr>key_r = ''a.b.c'', start_r = JNum 1, end_r = JNum 2\<rparr>"
            "''a.b.c''" numberToString emptyRequest]
      relation_first_violation_only
        [of "''x.y.c''" "emptySpecification\<lparr>allowedRelations := Some [''a'']\<rparr>" "[]" "[''a'']"
            "JNum 1" "[]" isoTimeValue "\<lparr>key_r = ''a.b.c'', start_r = JNum 1, end_r = JNum 2\<rparr>"
            "''a.b.c''" numberToString emptyRequest]
    by (simp add: emptySpecification_def segments_def relationErrors_def js_includes_def)
qed

lemma not_Ra_relationErrors: "filter (\<lambda>m. take 2 m = ''Ra'') (relationErrors spec path) = []"
  by (simp add: relationErrors_def relationMessage_def split: option.splits)

lemma not_Ra_filterErrors: "filter (\<lambda>m. take 2 m = ''Ra'') (filterErrors spec kv) = []"
  by (simp add: filterErrors_def forbiddenMessage_def not_Ra_relationErrors)

lemma not_Ra_searchErrors: "filter (\<lambda>m. take 2 m = ''Ra'') (searchErrors spec kv) = []"
  by (simp add: searchErrors_def not_Ra_relationErrors)

lemma not_Ra_paginationErrors: "filter (\<lambda>m. take 2 m = ''Ra'') (paginationErrors numberText q spec) = []"
  by (simp add: paginationErrors_def split: option.splits)

lemma Ra_rangeErrors:
  "filter (\<lambda>m. take 2 m = ''Ra'') (rangeErrors parse spec r) =
     (if startAfterEnd parse r then [startAfterEndMessage r] else [])"
  by (simp add: rangeErrors_def not_Ra_relationErrors startAfterEndMessage_def)

lemma filter_concat_map_Nil:
  "(\<And>x. filter P (f x) = []) \<Longrightarrow> filter P (concat (map f xs)) = []"
  by (induction xs) simp_all

lemma filter_concat_map_eq:
  "(\<And>x. filter P (f x) = g x) \<Longrightarrow> filter P (concat (map f xs)) = concat (map g xs)"
  by (induction xs) simp_all

lemma Ra_queryErrors:
  "filter (\<lambda>m. take 2 m = ''Ra'') (queryErrors parse numberText q spec) =
     (case rangedFilters q of
        None \<Rightarrow> []
      | Some rs \<Rightarrow>
          concat (map (\<lambda>r. if startAfterEnd parse r then [startAfterEndMessage r] else []) rs))"
proof -
  have 1: "filter (\<lambda>m. take 2 m = ''Ra'') (concat (map (filterErrors spec) fs)) = []" for fs
    by (rule filter_concat_map_Nil) (rule not_Ra_filterErrors)
  have 2: "filter (\<lambda>m. take 2 m = ''Ra'') (concat (map (searchErrors spec) sfs)) = []" for sfs
    by (rule filter_concat_map_Nil) (rule not_Ra_searchErrors)
  have 3: "filter (\<lambda>m. take 2 m = ''Ra'') (concat (map (rangeErrors parse spec) rs))
      = concat (map (\<lambda>r. if startAfterEnd parse r then [startAfterEndMessage r] else []) rs)" for rs
    by (rule filter_concat_map_eq) (rule Ra_rangeErrors)
  show ?thesis
    by (cases "filters q"; cases "searchFilters q"; cases "rangedFilters q"; cases "orderKey q")
       (simp_all add: queryErrors_def 1 2 3 not_Ra_relationErrors not_Ra_paginationErrors)
qed

text \<open>
  C8. With a specification present, a ranged filter yields the start-after-end error if
  and only if both its bounds are strings of the pattern YYYY-MM-DDTHH:MM:SS[.fraction]Z,
  both parse, and the start's date-time is strictly after the end's. The check that the
  code makes, \<open>isValidDate\<close> on both bounds and the comparison of the two dates, is this
  condition, and \<open>isValidDate\<close> on a string is the pattern. Bounds that do not match
  yield from a ranged filter only the relation errors of its key and the warning for a
  key that is not listed. The start-after-end errors of a validated request are those of
  its ranged filters with the condition, in order.
\<close>

theorem range_start_after_end:
  "rangedFilterEntry parseDate spec r (errs, warns)
     = (errs @ relationErrors spec (key_r r)
             @ (if startAfterEnd parseDate r then [startAfterEndMessage r] else []),
        warns @ (if notAllowed spec (key_r r) then [rangeNotListedMessage (key_r r)] else []))
   \<and> (startAfterEndMessage r \<in> set (fst (rangedFilterEntry parseDate spec r ([], [])))
        \<longleftrightarrow> startAfterEnd parseDate r)
   \<and> (startAfterEnd parseDate r
        \<longleftrightarrow> isValidDate (start_r r) \<and> isValidDate (end_r r)
            \<and> dateAfter (parseDate (templateString (start_r r)))
                 (parseDate (templateString (end_r r))))
   \<and> (isValidDate (JStr s) \<longleftrightarrow> isoUtcPattern s)
   \<and> \<not> isValidDate (JNum n)
   \<and> (\<not> (isValidDate (start_r r) \<and> isValidDate (end_r r)) \<longrightarrow>
        rangedFilterEntry parseDate spec r (errs, warns)
          = (errs @ relationErrors spec (key_r r),
             warns @ (if notAllowed spec (key_r r) then [rangeNotListedMessage (key_r r)] else [])))
   \<and> filter (\<lambda>m. take 2 m = ''Ra'') (errors (validateQuery parseDate numberText q (Some spec)))
       = (case rangedFilters q of
            None \<Rightarrow> []
          | Some rs \<Rightarrow>
              concat (map (\<lambda>r. if startAfterEnd parseDate r then [startAfterEndMessage r] else [])
                        rs))"
proof -
  have a: "rangedFilterEntry parseDate spec r (errs, warns)
     = (errs @ relationErrors spec (key_r r)
             @ (if startAfterEnd parseDate r then [startAfterEndMessage r] else []),
        warns @ (if notAllowed spec (key_r r) then [rangeNotListedMessage (key_r r)] else []))"
    for errs warns
    by (simp add: rangedFilterEntry_appends rangeErrors_def rangeWarnings_def
        del: rangedFilterEntry.simps)
  have b: "startAfterEndMessage r \<in> set (fst (rangedFilterEntry parseDate spec r ([], [])))
        \<longleftrightarrow> startAfterEnd parseDate r"
    using relationErrors_first_letters[of "startAfterEndMessage r" spec "key_r r"]
    by (auto simp: a startAfterEndMessage_def simp del: rangedFilterEntry.simps)
  have c: "startAfterEnd parseDate r
        \<longleftrightarrow> isValidDate (start_r r) \<and> isValidDate (end_r r)
            \<and> dateAfter (parseDate (templateString (start_r r)))
                 (parseDate (templateString (end_r r)))"
    by (rule startAfterEnd_code)
  have d: "isValidDate (JStr s) \<longleftrightarrow> isoUtcPattern s"
    by (simp add: matchesDateRegex_iff)
  have e: "\<not> (isValidDate (start_r r) \<and> isValidDate (end_r r)) \<longrightarrow>
        rangedFilterEntry parseDate spec r (errs, warns)
          = (errs @ relationErrors spec (key_r r),
             warns @ (if notAllowed spec (key_r r) then [rangeNotListedMessage (key_r r)] else []))"
    using c by (simp add: a del: rangedFilterEntry.simps)
  have f: "filter (\<lambda>m. take 2 m = ''Ra'') (errors (validateQuery parseDate numberText q (Some spec)))
       = (case rangedFilters q of
            None \<Rightarrow> []
          | Some rs \<Rightarrow>
              concat (map (\<lambda>r. if startAfterEnd parseDate r then [startAfterEndMessage r] else [])
                        rs))"
    by (simp add: validateQuery_Some Ra_queryErrors)
  from a[of errs warns] b c d e f show ?thesis
    by simp
qed

theorem range_start_after_end_witness:
  "startAfterEndMessage \<lparr>key_r = ''at'', start_r = JStr ''2023-12-31T00:00:00Z'',
                           end_r = JStr ''2023-01-01T00:00:00Z''\<rparr>
     = ''Range start date '2023-12-31T00:00:00Z' is after end date ''
         @ quoted ''2023-01-01T00:00:00Z''
   \<and> rangedFilterEntry isoTimeValue emptySpecification
        \<lparr>key_r = ''at'', start_r = JStr ''2023-12-31T00:00:00Z'',
          end_r = JStr ''2023-01-01T00:00:00Z''\<rparr> ([], [])
       = ([startAfterEndMessage \<lparr>key_r = ''at'', start_r = JStr ''2023-12-31T00:00:00Z'',
                                    end_r = JStr ''2023-01-01T00:00:00Z''\<rparr>], [])
   \<and> rangedFilterEntry isoTimeValue emptySpecification
        \<lparr>key_r = ''at'', start_r = JStr ''2023-01-01T00:00:00Z'',
          end_r = JStr ''2023-12-31T00:00:00Z''\<rparr> ([], []) = ([], [])
   \<and> rangedFilterEntry isoTimeValue emptySpecification
        \<lparr>key_r = ''at'', start_r = JNum 100, end_r = JNum 1\<rparr> ([], []) = ([], [])
   \<and> isoUtcPattern ''2023-12-31T00:00:00Z''"
proof -
  have v: "matchesDateRegex ''2023-12-31T00:00:00Z''" "matchesDateRegex ''2023-01-01T00:00:00Z''"
    by code_simp+
  have t: "isoTimeValue ''2023-12-31T00:00:00Z'' = Some 1703980800000"
    "isoTimeValue ''2023-01-01T00:00:00Z'' = Some 1672531200000"
    by code_simp+
  have m: "startAfterEndMessage \<lparr>key_r = ''at'', start_r = JStr ''2023-12-31T00:00:00Z'',
                           end_r = JStr ''2023-01-01T00:00:00Z''\<rparr>
     = ''Range start date '2023-12-31T00:00:00Z' is after end date ''
         @ quoted ''2023-01-01T00:00:00Z''"
    by (simp add: startAfterEndMessage_def quoted_def)
  have s: "relationErrors emptySpecification ''at'' = []" "\<not> notAllowed emptySpecification ''at''"
    by (simp_all add: relationErrors_def notAllowed_def emptySpecification_def)
  show ?thesis
    using m
      range_start_after_end
        [of isoTimeValue emptySpecification
            "\<lparr>key_r = ''at'', start_r = JStr ''2023-12-31T00:00:00Z'',
               end_r = JStr ''2023-01-01T00:00:00Z''\<rparr>" "[]" "[]" "''2023-12-31T00:00:00Z''" 100
            numberToString emptyRequest]
      range_start_after_end
        [of isoTimeValue emptySpecification
            "\<lparr>key_r = ''at'', start_r = JStr ''2023-01-01T00:00:00Z'',
               end_r = JStr ''2023-12-31T00:00:00Z''\<rparr>" "[]" "[]" "''2023-12-31T00:00:00Z''" 100
            numberToString emptyRequest]
      range_start_after_end
        [of isoTimeValue emptySpecification
            "\<lparr>key_r = ''at'', start_r = JNum 100, end_r = JNum 1\<rparr>" "[]" "[]"
            "''2023-12-31T00:00:00Z''" 100 numberToString emptyRequest]
    by (simp add: v t s del: rangedFilterEntry.simps)
qed

end
